theory Spec2Isabelle
  imports Main "HOL-Library.AList"
begin

section \<open>JavaScript values\<close>

text \<open>
  The routes pass untyped values around (\<^verbatim>\<open>details?: any\<close>, \<^verbatim>\<open>analysisResults: any\<close>,
  the result of \<^verbatim>\<open>JSON.parse\<close>, the bodies given to \<^verbatim>\<open>NextResponse.json\<close>). They are
  modelled by one datatype of JavaScript values. An object is an association list in
  insertion order, as \<^verbatim>\<open>Object.keys\<close> lists it. A string is the list of its code units,
  so that \<open>length\<close> is \<^verbatim>\<open>.length\<close>; the routes only ever look for ASCII characters in
  one. Numbers are integers: the code under study only counts and compares sizes and
  lengths.
\<close>

datatype jsval =
    JUndefined
  | JNull
  | JBool bool
  | JNum int
  | JStr string
  | JArr "jsval list"
  | JObj "(string \<times> jsval) list"

text \<open>A thrown or returned error, seen through \<^verbatim>\<open>error?.message\<close>: \<open>None\<close> when the
  value carries no message.\<close>

datatype js_error = JsError (message: "string option")

definition newline :: char where
  "newline = CHR 0x0A"

section \<open>Progress Channel (the global \<^verbatim>\<open>progressStore\<close>)\<close>

text \<open>
  \<^verbatim>\<open>progressStore\<close> is a \<^verbatim>\<open>Map<string, any[]>\<close> from session id to the queued updates.
  \<^verbatim>\<open>emitProgress\<close> (src/unnamed/part_001 lines 68-83, and the copy in
  src/app/api/upload/route.ts lines 14-28) appends one update; the interval callback of
  the event stream (part_001 lines 28-44) sends and clears what is queued; the abort
  listener (lines 47-52) deletes the session's entry. Each of them runs to completion
  on the single JavaScript thread, so each is one function on the store. The reading of
  the clock (\<^verbatim>\<open>new Date().toISOString()\<close>) is the argument \<open>now\<close>.
\<close>

datatype progress_status = Active | Completed | Failed

record progress_event =
  ev_type :: string
  step :: string
  status :: progress_status
  details :: jsval
  timestamp :: string

type_synonym progress_store = "string \<rightharpoonup> progress_event list"

definition progressData :: "string \<Rightarrow> string \<Rightarrow> progress_status \<Rightarrow> jsval \<Rightarrow> progress_event" where
  "progressData now stp st det =
     \<lparr>ev_type = ''progress'', step = stp, status = st, details = det, timestamp = now\<rparr>"

definition emitProgress ::
  "string \<Rightarrow> string \<Rightarrow> string \<Rightarrow> progress_status \<Rightarrow> jsval \<Rightarrow> progress_store \<Rightarrow> progress_store" where
  "emitProgress now sessionId stp st det ps =
     (let ps1 = (if ps sessionId = None then ps(sessionId \<mapsto> []) else ps)
      in case ps1 sessionId of
           Some queue \<Rightarrow> ps1(sessionId \<mapsto> queue @ [progressData now stp st det])
         | None \<Rightarrow> ps1)"

text \<open>The interval callback: the updates it sends, and the store it leaves.\<close>

definition drain :: "bool \<Rightarrow> string \<Rightarrow> progress_store \<Rightarrow> progress_event list \<times> progress_store" where
  "drain isConnected sessionId ps =
     (if \<not> isConnected then ([], ps)
      else case ps sessionId of
             Some progress \<Rightarrow>
               if length progress > 0 then (progress, ps(sessionId \<mapsto> [])) else ([], ps)
           | None \<Rightarrow> ([], ps))"

text \<open>The abort listener: \<^verbatim>\<open>progressStore.delete(sessionId)\<close>.\<close>

definition dispose :: "string \<Rightarrow> progress_store \<Rightarrow> progress_store" where
  "dispose sessionId ps = ps(sessionId := None)"

text \<open>What is queued for a session: nothing when the session has no entry.\<close>

definition queued :: "progress_store \<Rightarrow> string \<Rightarrow> progress_event list" where
  "queued ps sessionId = (case ps sessionId of Some q \<Rightarrow> q | None \<Rightarrow> [])"

text \<open>A schedule of channel operations, of any sessions, run one after the other.\<close>

datatype chan_op =
    Publish string string string progress_status jsval
  | Drain string
  | Dispose string

fun op_session :: "chan_op \<Rightarrow> string" where
  "op_session (Publish now sid stp st det) = sid"
| "op_session (Drain sid) = sid"
| "op_session (Dispose sid) = sid"

fun is_publish :: "chan_op \<Rightarrow> bool" where
  "is_publish (Publish now sid stp st det) = True"
| "is_publish (Drain sid) = False"
| "is_publish (Dispose sid) = False"

fun apply_op :: "chan_op \<Rightarrow> progress_store \<Rightarrow> progress_store" where
  "apply_op (Publish now sid stp st det) ps = emitProgress now sid stp st det ps"
| "apply_op (Drain sid) ps = snd (drain True sid ps)"
| "apply_op (Dispose sid) ps = dispose sid ps"

fun run_ops :: "chan_op list \<Rightarrow> progress_store \<Rightarrow> progress_store" where
  "run_ops [] ps = ps"
| "run_ops (op # ops) ps = run_ops ops (apply_op op ps)"

text \<open>The updates a schedule publishes for one session, in publish order.\<close>

fun published :: "string \<Rightarrow> chan_op list \<Rightarrow> progress_event list" where
  "published s [] = []"
| "published s (Publish now sid stp st det # ops) =
     (if sid = s then progressData now stp st det # published s ops else published s ops)"
| "published s (Drain sid # ops) = published s ops"
| "published s (Dispose sid # ops) = published s ops"

text \<open>The updates that are queued for a session after a schedule, given those queued
  before it: a publication for the session adds its update at the end, a drain or a
  dispose of the session leaves none.\<close>

fun pending :: "string \<Rightarrow> chan_op list \<Rightarrow> progress_event list \<Rightarrow> progress_event list" where
  "pending s [] q = q"
| "pending s (Publish now sid stp st det # ops) q =
     pending s ops (if sid = s then q @ [progressData now stp st det] else q)"
| "pending s (Drain sid # ops) q = pending s ops (if sid = s then [] else q)"
| "pending s (Dispose sid # ops) q = pending s ops (if sid = s then [] else q)"

section \<open>The upload route (src/app/api/upload/route.ts)\<close>

text \<open>
  The handler \<^verbatim>\<open>POST\<close> awaits external services. What each of them answers is an input
  of the model, collected in the record \<open>upload_env\<close>: an awaited call either resolves
  with a value or rejects with an error, and the Supabase client resolves with either
  its \<^verbatim>\<open>error\<close> or its \<^verbatim>\<open>data\<close> (the \<^verbatim>\<open>data\<close> of the insert may be \<^verbatim>\<open>null\<close>). The model call of the analysis loop is asked once per
  loop iteration, so its answers are indexed by the iteration. The clock is a sequence
  of readings; the handler's trace counts the readings that end up in a value
  (\<^verbatim>\<open>handleError\<close> and \<^verbatim>\<open>emitProgress\<close>; the console's own time stamps are not
  modelled, nor is the console). The texts of the six prompts of
  \<^verbatim>\<open>LEASE_ANALYSIS_PROMPTS\<close> (lines 32-113) are never inspected by the code; they are
  the parameter \<open>prompt_text\<close>.
\<close>

datatype 'a awaited = Resolved 'a | Rejected js_error

datatype response = Response (status_code: nat) (body: jsval)

record upload_file =
  file_name :: string
  file_type :: string
  file_size :: nat

text \<open>The fields of the multipart form; a string field that is absent is \<open>[]\<close>, which
  the handler treats like an empty one (\<^verbatim>\<open>||\<close>).\<close>

record upload_form =
  form_sessionId :: string
  form_file :: "upload_file option"
  form_leaseType :: string
  form_analysisModes :: string

record upload_env =
  gemini_api_key :: bool
  getUser :: "(js_error + string option) awaited"
  formData :: "upload_form awaited"
  session_stamp :: string
  upload_stamp :: string
  arrayBuffer :: "unit awaited"
  storage_upload :: "(js_error + string) awaited"
  extract_text :: "string awaited"
  analyse :: "nat \<Rightarrow> string awaited"
  db_insert :: "(js_error + jsval) awaited"
  prompt_text :: "string \<Rightarrow> string"
  clock :: "nat \<Rightarrow> string"

text \<open>The progress updates the handler has emitted so far, each with the session id it
  was emitted for, and the number of clock readings so far.\<close>

record trace =
  events :: "(string \<times> progress_event) list"
  reads :: nat

definition tick :: "trace \<Rightarrow> trace" where
  "tick t = t\<lparr>reads := Suc (reads t)\<rparr>"

definition emit ::
  "upload_env \<Rightarrow> string \<Rightarrow> string \<Rightarrow> progress_status \<Rightarrow> jsval \<Rightarrow> trace \<Rightarrow> trace" where
  "emit env sessionId stp st det t =
     tick (t\<lparr>events := events t @ [(sessionId, progressData (clock env (reads t)) stp st det)]\<rparr>)"

text \<open>\<^verbatim>\<open>logProgress\<close> (lines 116-124) and \<^verbatim>\<open>logProgressCompleted\<close> (lines 126-134): the
  update is emitted only for a truthy session id.\<close>

definition logProgress :: "upload_env \<Rightarrow> string \<Rightarrow> jsval \<Rightarrow> string \<Rightarrow> trace \<Rightarrow> trace" where
  "logProgress env stp det sessionId t =
     (if sessionId \<noteq> [] then emit env sessionId stp Active det t else t)"

definition logProgressCompleted :: "upload_env \<Rightarrow> string \<Rightarrow> jsval \<Rightarrow> string \<Rightarrow> trace \<Rightarrow> trace" where
  "logProgressCompleted env stp det sessionId t =
     (if sessionId \<noteq> [] then emit env sessionId stp Completed det t else t)"

text \<open>\<^verbatim>\<open>handleError\<close> (lines 137-151): \<^verbatim>\<open>error?.message || 'Unknown error occurred'\<close>.\<close>

definition error_text :: "js_error \<Rightarrow> string" where
  "error_text e =
     (case message e of
        Some m \<Rightarrow> if m \<noteq> [] then m else ''Unknown error occurred''
      | None \<Rightarrow> ''Unknown error occurred'')"

definition handleError :: "string \<Rightarrow> js_error \<Rightarrow> string \<Rightarrow> jsval" where
  "handleError now e context =
     JObj [(''error'', JStr (error_text e)), (''context'', JStr context), (''timestamp'', JStr now)]"

text \<open>\<^verbatim>\<open>return NextResponse.json(handleError(error, context), { status })\<close>.\<close>

definition respond_error :: "upload_env \<Rightarrow> js_error \<Rightarrow> string \<Rightarrow> nat \<Rightarrow> trace \<Rightarrow> response \<times> trace" where
  "respond_error env e context code t =
     (Response code (handleError (clock env (reads t)) e context), tick t)"

text \<open>\<^verbatim>\<open>if (sessionId) emitProgress(sessionId, step, 'error', handleError(error, context))\<close>.\<close>

definition emit_error :: "upload_env \<Rightarrow> string \<Rightarrow> string \<Rightarrow> js_error \<Rightarrow> string \<Rightarrow> trace \<Rightarrow> trace" where
  "emit_error env sessionId stp e context t =
     (if sessionId \<noteq> []
      then emit env sessionId stp Failed (handleError (clock env (reads t)) e context) (tick t)
      else t)"

text \<open>The outer \<^verbatim>\<open>catch\<close> (lines 342-348), reached by a rejected await that has no
  \<^verbatim>\<open>try\<close> of its own.\<close>

definition unexpected :: "upload_env \<Rightarrow> js_error \<Rightarrow> trace \<Rightarrow> response \<times> trace" where
  "unexpected env e t =
     (Response 500 (JObj [(''error'', JStr (error_text e)), (''context'', JStr ''Upload Process''),
        (''timestamp'', JStr (clock env (reads t))),
        (''message'', JStr ''An unexpected error occurred during upload and analysis'')]),
      tick t)"

text \<open>Decimal digits of a natural number, and \<^verbatim>\<open>(size / 1024 / 1024).toFixed(1)\<close>: the
  quotient is exact in binary floating point, and \<^verbatim>\<open>toFixed\<close> rounds it to the nearest
  tenth, a tie upwards.\<close>

function decimal :: "nat \<Rightarrow> string" where
  "decimal n = (if n < 10 then [char_of (48 + n)] else decimal (n div 10) @ [char_of (48 + n mod 10)])"
  by pat_completeness auto
termination
  by (relation "measure id") auto

declare decimal.simps [simp del]

definition megabytes :: "nat \<Rightarrow> string" where
  "megabytes bytes =
     (let tenths = (10 * bytes + 524288) div 1048576
      in decimal (tenths div 10) @ ''.'' @ decimal (tenths mod 10))"

definition maxSize :: nat where
  "maxSize = 50 * 1024 * 1024"

text \<open>\<^verbatim>\<open>String.prototype.split(',')\<close>.\<close>

fun split_comma :: "string \<Rightarrow> string list" where
  "split_comma [] = [[]]"
| "split_comma (c # cs) =
     (if c = CHR '','' then [] # split_comma cs
      else case split_comma cs of
             w # ws \<Rightarrow> (c # w) # ws
           | [] \<Rightarrow> [[c]])"

text \<open>The file checks of lines 199-214: the error of a refused upload, or the file
  that passed.\<close>

definition file_validation :: "upload_file option \<Rightarrow> js_error + upload_file" where
  "file_validation f =
     (case f of
        None \<Rightarrow> Inl (JsError (Some ''No file was provided in the request''))
      | Some file \<Rightarrow>
          if file_type file \<noteq> ''application/pdf''
          then Inl (JsError (Some (''Invalid file type: '' @ file_type file @ ''. Only PDF files are allowed.'')))
          else if file_size file > maxSize
          then Inl (JsError (Some (''File too large: '' @ megabytes (file_size file) @
                  ''MB. Maximum allowed size is 50MB.'')))
          else Inr file)"

text \<open>What the handler holds when it enters the analysis stage (line 268).\<close>

record gate_ctx =
  g_sessionId :: string
  g_user :: string
  g_file :: upload_file
  g_leaseType :: string
  g_modes :: "string list"
  g_path :: string
  g_text :: string
  g_trace :: trace

definition requested_modes :: "upload_form \<Rightarrow> string list" where
  "requested_modes form =
     split_comma (if form_analysisModes form \<noteq> [] then form_analysisModes form else ''standard'')"

text \<open>A property read \<^verbatim>\<open>value.key\<close> on a value that is not \<^verbatim>\<open>null\<close> or \<^verbatim>\<open>undefined\<close>:
  the value of the key for an object that has it, \<^verbatim>\<open>undefined\<close> otherwise. The callers
  below use it on the object \<^verbatim>\<open>handleError\<close> returns, and on rows after the test for
  \<^verbatim>\<open>null\<close>.\<close>

definition js_get :: "jsval \<Rightarrow> string \<Rightarrow> jsval" where
  "js_get v k = (case v of JObj kvs \<Rightarrow> (case map_of kvs k of Some x \<Rightarrow> x | None \<Rightarrow> JUndefined) | _ \<Rightarrow> JUndefined)"

text \<open>JavaScript truthiness.\<close>

fun js_truthy :: "jsval \<Rightarrow> bool" where
  "js_truthy JUndefined = False"
| "js_truthy JNull = False"
| "js_truthy (JBool b) = b"
| "js_truthy (JNum n) = (n \<noteq> 0)"
| "js_truthy (JStr s) = (s \<noteq> [])"
| "js_truthy (JArr xs) = True"
| "js_truthy (JObj kvs) = True"

text \<open>The message of the \<^verbatim>\<open>TypeError\<close> of a property read \<^verbatim>\<open>value.key\<close> on \<^verbatim>\<open>null\<close> or
  \<^verbatim>\<open>undefined\<close>, as V8 words it.\<close>

definition apostrophe :: char where
  "apostrophe = CHR 0x27"

definition property_read_message :: "jsval \<Rightarrow> string \<Rightarrow> string" where
  "property_read_message v k =
     ''Cannot read properties of '' @ (if v = JNull then ''null'' else ''undefined'') @
     '' (reading '' @ [apostrophe] @ k @ [apostrophe] @ '')''"

text \<open>\<^verbatim>\<open>`Text extraction failed: ${errorInfo.error}`\<close>: the template renders the string held
  by the object.\<close>

definition js_text :: "jsval \<Rightarrow> string" where
  "js_text v = (case v of JStr s \<Rightarrow> s | _ \<Rightarrow> [])"

text \<open>Text extraction (lines 245-266): a failure of the model call is caught, and the
  extracted text becomes the failure sentence.\<close>

definition extraction :: "upload_env \<Rightarrow> string \<Rightarrow> trace \<Rightarrow> string \<times> trace" where
  "extraction env sessionId t =
     (let t1 = logProgress env ''Extracting text with Gemini...''
                 (JObj [(''model'', JStr ''gemini-2.5-flash'')]) sessionId t
      in case extract_text env of
           Resolved text \<Rightarrow>
             (text, logProgressCompleted env ''Text extracted successfully''
                      (JObj [(''textLength'', JNum (int (length text)))]) sessionId t1)
         | Rejected geminiError \<Rightarrow>
             (let errorInfo = handleError (clock env (reads t1)) geminiError ''Gemini Text Extraction'';
                  t2 = tick t1;
                  t3 = (if sessionId \<noteq> []
                        then emit env sessionId ''Extracting text with Gemini'' Failed errorInfo t2
                        else t2)
              in (''Text extraction failed: '' @ js_text (js_get errorInfo ''error''), t3)))"

text \<open>The session id, the lease type and the details of the parsed form (lines 184-197).\<close>

definition session_of :: "upload_env \<Rightarrow> upload_form \<Rightarrow> string" where
  "session_of env form =
     (if form_sessionId form \<noteq> [] then form_sessionId form else ''upload-'' @ session_stamp env)"

definition lease_type_of :: "upload_form \<Rightarrow> string" where
  "lease_type_of form = (if form_leaseType form \<noteq> [] then form_leaseType form else ''solar'')"

definition form_details :: "upload_form \<Rightarrow> jsval" where
  "form_details form =
     JObj [(''fileName'', case form_file form of Some f \<Rightarrow> JStr (file_name f) | None \<Rightarrow> JUndefined),
           (''fileType'', case form_file form of Some f \<Rightarrow> JStr (file_type f) | None \<Rightarrow> JUndefined),
           (''fileSize'', case form_file form of Some f \<Rightarrow> JNum (int (file_size f)) | None \<Rightarrow> JUndefined),
           (''leaseType'', JStr (lease_type_of form)),
           (''analysisModes'', JArr (map JStr (requested_modes form)))]"

text \<open>Lines 216-242: the file's bytes are read and handed to the storage bucket. \<open>Inr\<close>
  is the stored path.\<close>

definition store_file ::
  "upload_env \<Rightarrow> string \<Rightarrow> string \<Rightarrow> upload_file \<Rightarrow> trace \<Rightarrow> (response \<times> trace) + (string \<times> trace)" where
  "store_file env sessionId user_id file t2 =
     (let t3 = logProgress env ''Converting file to buffer...'' JUndefined sessionId t2 in
      case arrayBuffer env of
        Rejected bufferError \<Rightarrow>
          Inl (respond_error env bufferError ''File Buffer Conversion'' 400
                 (emit_error env sessionId ''Converting file to buffer'' bufferError
                    ''File Buffer Conversion'' t3))
      | Resolved u \<Rightarrow>
         (let fileName = user_id @ ''/'' @ upload_stamp env @ ''-'' @ file_name file;
              t4 = logProgressCompleted env ''File converted to buffer'' JUndefined sessionId t3;
              t5 = logProgress env ''Uploading to storage...''
                     (JObj [(''fileName'', JStr fileName),
                            (''fileSize'', JNum (int (file_size file)))]) sessionId t4
          in case storage_upload env of
               Rejected e \<Rightarrow> Inl (unexpected env e t5)
             | Resolved (Inl uploadError) \<Rightarrow>
                 Inl (respond_error env uploadError ''File Upload to Storage'' 500
                        (emit_error env sessionId ''Uploading to storage'' uploadError
                           ''File Upload to Storage'' t5))
             | Resolved (Inr path) \<Rightarrow>
                 Inr (path, logProgressCompleted env ''File uploaded successfully to storage''
                              (JObj [(''path'', JStr path)]) sessionId t5)))"

text \<open>Lines 184-269, from the parsed form to the start of the analysis stage.\<close>

definition after_form ::
  "upload_env \<Rightarrow> string \<Rightarrow> upload_form \<Rightarrow> trace \<Rightarrow> (response \<times> trace) + gate_ctx" where
  "after_form env user_id form t0 =
     (let sessionId = session_of env form;
          t1 = logProgress env ''Parsing form data...'' JUndefined sessionId t0;
          t2 = logProgressCompleted env ''Form data parsed successfully'' (form_details form) sessionId t1
      in case file_validation (form_file form) of
           Inl error \<Rightarrow> Inl (respond_error env error ''File Validation'' 400 t2)
         | Inr file \<Rightarrow>
            (case store_file env sessionId user_id file t2 of
               Inl early_response \<Rightarrow> Inl early_response
             | Inr stored \<Rightarrow>
                (let ex = extraction env sessionId (snd stored);
                     t8 = logProgress env ''Starting analysis...''
                            (JObj [(''modes'', JArr (map JStr (requested_modes form))),
                                   (''leaseType'', JStr (lease_type_of form))]) sessionId (snd ex)
                 in Inr \<lparr>g_sessionId = sessionId, g_user = user_id, g_file = file,
                         g_leaseType = lease_type_of form, g_modes = requested_modes form,
                         g_path = fst stored, g_text = fst ex, g_trace = t8\<rparr>)))"

text \<open>Lines 156-269: everything before the analysis stage. \<open>Inl\<close> is an early
  response. Until the form is parsed the session id is empty, so the two updates about
  the authentication are not emitted.\<close>

definition ingest :: "upload_env \<Rightarrow> (response \<times> trace) + gate_ctx" where
  "ingest env =
     (let t0 = \<lparr>events = [], reads = 0\<rparr> in
      if \<not> gemini_api_key env
      then Inl (respond_error env (JsError (Some ''GEMINI_API_KEY is not set in environment variables''))
                  ''API Configuration'' 500 t0)
      else case getUser env of
        Rejected e \<Rightarrow> Inl (unexpected env e t0)
      | Resolved (Inl userError) \<Rightarrow> Inl (respond_error env userError ''User Authentication'' 401 t0)
      | Resolved (Inr None) \<Rightarrow>
          Inl (respond_error env (JsError (Some ''No authenticated user found'')) ''User Authentication'' 401 t0)
      | Resolved (Inr (Some user_id)) \<Rightarrow>
         (case formData env of
            Rejected e \<Rightarrow> Inl (unexpected env e t0)
          | Resolved form \<Rightarrow> after_form env user_id form t0))"

text \<open>
  \<^verbatim>\<open>LEASE_ANALYSIS_PROMPTS[mode]\<close> (line 280) is a property read on an object literal. It
  is truthy for the six keys of the literal, and also for the member names every object
  inherits from \<^verbatim>\<open>Object.prototype\<close>; for any other string it is \<^verbatim>\<open>undefined\<close>.
  \<open>prompt_text env mode\<close> is the text \<^verbatim>\<open>${prompt}\<close> renders to.
\<close>

definition registry :: "string list" where
  "registry = [''standard'', ''parsing'', ''redlining'', ''obligations'', ''renewal'', ''legal'']"

definition object_prototype_members :: "string list" where
  "object_prototype_members =
     [''constructor'', ''__defineGetter__'', ''__defineSetter__'', ''hasOwnProperty'',
      ''__lookupGetter__'', ''__lookupSetter__'', ''isPrototypeOf'', ''propertyIsEnumerable'',
      ''toString'', ''valueOf'', ''__proto__'', ''toLocaleString'']"

definition LEASE_ANALYSIS_PROMPTS :: "upload_env \<Rightarrow> string \<Rightarrow> string option" where
  "LEASE_ANALYSIS_PROMPTS env mode =
     (if mode \<in> set registry \<or> mode \<in> set object_prototype_members
      then Some (prompt_text env mode) else None)"

text \<open>\<^verbatim>\<open>analysisResults[mode] = value\<close>: an assignment to \<^verbatim>\<open>__proto__\<close> adds no key.\<close>

definition set_property :: "string \<Rightarrow> jsval \<Rightarrow> (string \<times> jsval) list \<Rightarrow> (string \<times> jsval) list" where
  "set_property k v obj = (if k = ''__proto__'' then obj else AList.update k v obj)"

definition contextualPrompt :: "upload_env \<Rightarrow> string \<Rightarrow> string \<Rightarrow> string \<Rightarrow> string" where
  "contextualPrompt env mode leaseType extractedText =
     prompt_text env mode @ [newline, newline] @ ''Lease Type: '' @ leaseType @ [newline, newline] @
     ''Document Content:'' @ [newline] @ take 8000 extractedText"

definition ErrorEnvelope :: "jsval \<Rightarrow> jsval \<Rightarrow> jsval" where
  "ErrorEnvelope msg ts = JObj [(''error'', JBool True), (''message'', msg), (''timestamp'', ts)]"

record loop_state =
  results :: "(string \<times> jsval) list"
  calls :: "string list"
  ltrace :: trace

text \<open>One iteration of the loop of lines 279-304, for the mode at position \<open>i\<close> of the
  list.\<close>

definition analyse_mode :: "upload_env \<Rightarrow> gate_ctx \<Rightarrow> nat \<Rightarrow> string \<Rightarrow> loop_state \<Rightarrow> loop_state" where
  "analyse_mode env c i mode st =
     (case LEASE_ANALYSIS_PROMPTS env mode of
        None \<Rightarrow> st
      | Some prompt \<Rightarrow>
         (let t1 = logProgress env (''Running '' @ mode @ '' analysis...'') JUndefined (g_sessionId c) (ltrace st);
              sent = calls st @ [contextualPrompt env mode (g_leaseType c) (g_text c)]
          in case analyse env i of
               Resolved analysisText \<Rightarrow>
                 \<lparr>results = set_property mode (JStr analysisText) (results st),
                  calls = sent,
                  ltrace = logProgressCompleted env (mode @ '' analysis completed'') JUndefined (g_sessionId c) t1\<rparr>
             | Rejected analysisError \<Rightarrow>
                 (let errorInfo = handleError (clock env (reads t1)) analysisError (mode @ '' Analysis'');
                      t2 = tick t1;
                      t3 = (if g_sessionId c \<noteq> []
                            then emit env (g_sessionId c) (''Running '' @ mode @ '' analysis'') Failed errorInfo t2
                            else t2)
                  in \<lparr>results = set_property mode
                                  (ErrorEnvelope (js_get errorInfo ''error'') (js_get errorInfo ''timestamp''))
                                  (results st),
                      calls = sent,
                      ltrace = t3\<rparr>)))"

fun analysis_loop :: "upload_env \<Rightarrow> gate_ctx \<Rightarrow> nat \<Rightarrow> string list \<Rightarrow> loop_state \<Rightarrow> loop_state" where
  "analysis_loop env c i [] st = st"
| "analysis_loop env c i (mode # modes) st = analysis_loop env c (Suc i) modes (analyse_mode env c i mode st)"

text \<open>The content gate of line 273.\<close>

definition insufficient :: "string \<Rightarrow> bool" where
  "insufficient extractedText \<longleftrightarrow>
     extractedText = ''Text extraction failed'' \<or> length extractedText < 100"

record upload_run =
  response :: response
  emitted :: "(string \<times> progress_event) list"
  model_calls :: "string list"
  analysisResults :: "(string \<times> jsval) list"
  inserted :: "jsval option"

definition early :: "response \<times> trace \<Rightarrow> upload_run" where
  "early rt = \<lparr>response = fst rt, emitted = events (snd rt), model_calls = [],
               analysisResults = [], inserted = None\<rparr>"

text \<open>The row given to \<^verbatim>\<open>.insert\<close> (lines 314-325).\<close>

definition file_row :: "gate_ctx \<Rightarrow> (string \<times> jsval) list \<Rightarrow> jsval" where
  "file_row c res =
     JObj [(''user_id'', JStr (g_user c)),
           (''file_name'', JStr (file_name (g_file c))),
           (''file_path'', JStr (g_path c)),
           (''file_type'', JStr (file_type (g_file c))),
           (''file_size'', JNum (int (file_size (g_file c)))),
           (''processed'', JBool True),
           (''extracted_text'', JStr (g_text c)),
           (''analysis_results'', JObj res),
           (''lease_type'', JStr (g_leaseType c)),
           (''analysis_modes'', JArr (map JStr (g_modes c)))]"

text \<open>The \<^verbatim>\<open>TypeError\<close> of a property read on \<^verbatim>\<open>null\<close> or \<^verbatim>\<open>undefined\<close>.\<close>

definition property_read_error :: "jsval \<Rightarrow> string \<Rightarrow> js_error" where
  "property_read_error v k = JsError (Some (property_read_message v k))"

text \<open>Lines 270-340: the content gate, the analysis loop, the insert and the answer. When
  the insert reports no error and no row, \<^verbatim>\<open>fileData.id\<close> (line 333) throws before the
  last update is emitted, and the outer \<^verbatim>\<open>catch\<close> answers.\<close>

definition analyse_and_save :: "upload_env \<Rightarrow> gate_ctx \<Rightarrow> upload_run" where
  "analyse_and_save env c =
     (if insufficient (g_text c)
      then early (respond_error env (JsError (Some ''Insufficient text content extracted from PDF for analysis''))
                    ''Text Analysis Prerequisite'' 400 (g_trace c))
      else
        (let st = analysis_loop env c 0 (g_modes c) \<lparr>results = [], calls = [], ltrace = g_trace c\<rparr>;
             t1 = logProgress env ''Analysis completed, saving to database...''
                    (JObj [(''resultsCount'', JNum (int (length (results st)))),
                           (''modesProcessed'', JArr (map (\<lambda>kv. JStr (fst kv)) (results st)))])
                    (g_sessionId c) (ltrace st);
             row = file_row c (results st);
             (resp, t2) =
               (case db_insert env of
                  Rejected e \<Rightarrow> unexpected env e t1
                | Resolved (Inl dbError) \<Rightarrow> respond_error env dbError ''Database Save'' 500 t1
                | Resolved (Inr fileData) \<Rightarrow>
                    if fileData = JNull \<or> fileData = JUndefined
                    then unexpected env (property_read_error fileData ''id'') t1
                    else
                      (Response 200
                         (JObj [(''message'', JStr ''File uploaded and analyzed successfully''),
                                (''file'', fileData),
                                (''analysis'', JObj (results st)),
                                (''sessionId'', JStr (g_sessionId c))]),
                       logProgressCompleted env ''Upload and analysis completed successfully''
                         (JObj [(''fileId'', js_get fileData ''id'')]) (g_sessionId c) t1))
         in \<lparr>response = resp, emitted = events t2, model_calls = calls st,
             analysisResults = results st, inserted = Some row\<rparr>))"

definition POST :: "upload_env \<Rightarrow> upload_run" where
  "POST env = (case ingest env of Inl rt \<Rightarrow> early rt | Inr c \<Rightarrow> analyse_and_save env c)"

section \<open>Vocabulary for the properties of the upload route\<close>

text \<open>The value the variable \<^verbatim>\<open>extractedText\<close> holds after lines 248-266, whatever
  the session id and the trace are.\<close>

definition extractedText :: "upload_env \<Rightarrow> string" where
  "extractedText env =
     (case extract_text env of
        Resolved text \<Rightarrow> text
      | Rejected geminiError \<Rightarrow> ''Text extraction failed: '' @ error_text geminiError)"

text \<open>The shape \<^verbatim>\<open>{error: true, message, timestamp}\<close> of lines 294-298, with the given
  message and any time stamp.\<close>

definition is_ErrorEnvelope :: "string \<Rightarrow> jsval \<Rightarrow> bool" where
  "is_ErrorEnvelope msg v \<longleftrightarrow>
     (case v of
        JObj kvs \<Rightarrow> map fst kvs = [''error'', ''message'', ''timestamp'']
      | _ \<Rightarrow> False) \<and>
     js_get v ''error'' = JBool True \<and> js_get v ''message'' = JStr msg \<and>
     (case js_get v ''timestamp'' of JStr ts \<Rightarrow> True | _ \<Rightarrow> False)"

text \<open>What a mode's key has to hold after the model call of loop iteration \<open>i\<close>: the raw
  text of the answer, or the envelope of the error.\<close>

definition stored_outcome :: "upload_env \<Rightarrow> nat \<Rightarrow> jsval \<Rightarrow> bool" where
  "stored_outcome env i v \<longleftrightarrow>
     (case analyse env i of
        Resolved analysisText \<Rightarrow> v = JStr analysisText
      | Rejected analysisError \<Rightarrow> is_ErrorEnvelope (error_text analysisError) v)"

text \<open>A concrete upload: a small PDF, the modes \<^verbatim>\<open>standard,legal\<close>, every service
  answering, and the model call of the second mode failing.\<close>

definition sample_form :: upload_form where
  "sample_form =
     \<lparr>form_sessionId = ''session-1'',
      form_file = Some \<lparr>file_name = ''lease.pdf'', file_type = ''application/pdf'', file_size = 2048\<rparr>,
      form_leaseType = ''solar'',
      form_analysisModes = ''standard,legal''\<rparr>"

definition sample_env :: upload_env where
  "sample_env =
     \<lparr>gemini_api_key = True,
      getUser = Resolved (Inr (Some ''user-1'')),
      formData = Resolved sample_form,
      session_stamp = ''1700000000000-abc'',
      upload_stamp = ''1700000000000'',
      arrayBuffer = Resolved (),
      storage_upload = Resolved (Inr ''user-1/1700000000000-lease.pdf''),
      extract_text = Resolved (replicate 120 (CHR ''x'')),
      analyse = (\<lambda>i. if i = 1 then Rejected (JsError (Some ''quota exceeded'')) else Resolved ''{}''),
      db_insert = Resolved (Inr (JObj [(''id'', JStr ''file-1'')])),
      prompt_text = (\<lambda>mode. ''Prompt of '' @ mode),
      clock = (\<lambda>n. ''2025-01-01T00:00:00.000Z'')\<rparr>"

text \<open>The same upload declared as a Word document.\<close>

definition docx_file :: upload_file where
  "docx_file =
     \<lparr>file_name = ''lease.docx'',
      file_type = ''application/vnd.openxmlformats-officedocument.wordprocessingml.document'',
      file_size = 2048\<rparr>"

section \<open>The chat service (src/lib/chat-service-basic.ts)\<close>

text \<open>
  A value that JavaScript code throws: an instance of \<^verbatim>\<open>Error\<close> with its message, or any
  other value. What a call ends with: the value it returns, or the value it throws.
\<close>

datatype thrown = ErrorObject string | OtherThrown jsval

datatype 'a outcome = Returned 'a | Threw thrown

text \<open>\<^verbatim>\<open>error instanceof Error ? error.message : 'Unknown error'\<close> (lines 66 and 158).\<close>

definition message_or_unknown :: "thrown \<Rightarrow> string" where
  "message_or_unknown error = (case error of ErrorObject m \<Rightarrow> m | OtherThrown v \<Rightarrow> ''Unknown error'')"

text \<open>
  Line 52: \<^verbatim>\<open>${extractedText.substring(0, 2000)}${extractedText.length > 2000 ? '...' : ''}\<close>.
  The column \<^verbatim>\<open>extracted_text\<close> of the row arrives as it is stored: the read throws a
  \<^verbatim>\<open>TypeError\<close> for \<^verbatim>\<open>null\<close> and \<^verbatim>\<open>undefined\<close>, and the call throws a \<^verbatim>\<open>TypeError\<close> for any other
  value that is not a string (messages as V8 words them).
\<close>

definition document_excerpt :: "jsval \<Rightarrow> string outcome" where
  "document_excerpt extracted_text =
     (case extracted_text of
        JStr s \<Rightarrow> Returned (take 2000 s @ (if length s > 2000 then ''...'' else []))
      | JNull \<Rightarrow> Threw (ErrorObject (property_read_message JNull ''substring''))
      | JUndefined \<Rightarrow> Threw (ErrorObject (property_read_message JUndefined ''substring''))
      | _ \<Rightarrow> Threw (ErrorObject ''extractedText.substring is not a function''))"

text \<open>
  \<^verbatim>\<open>chatWithDocument\<close> (lines 20-68) wraps its whole body in \<^verbatim>\<open>try\<close>/\<^verbatim>\<open>catch\<close>. The body
  builds the prompt (\<^verbatim>\<open>extractAnalysisContext\<close> has a \<^verbatim>\<open>try\<close>/\<^verbatim>\<open>catch\<close> of its own and always
  returns a string, so line 52 is the only place where the prompt can throw) and makes
  the single model call of the turn (lines 60-62): \<open>generateContent\<close> is what
  \<^verbatim>\<open>generateContent\<close>, \<^verbatim>\<open>result.response\<close> and \<^verbatim>\<open>response.text()\<close> end with, the text of the
  answer or the value thrown. The \<^verbatim>\<open>catch\<close> returns a sentence. The text of the prompt is
  not modelled.
\<close>

definition document_apology :: "thrown \<Rightarrow> string" where
  "document_apology error =
     ''I apologize, but I encountered an error while processing your request. '' @
     ''Please try again or contact support if the issue persists. Error: '' @
     message_or_unknown error"

definition chatWithDocument :: "string outcome \<Rightarrow> jsval \<Rightarrow> string" where
  "chatWithDocument generateContent extracted_text =
     (case document_excerpt extracted_text of
        Threw error \<Rightarrow> document_apology error
      | Returned excerpt \<Rightarrow>
          (case generateContent of
             Returned answer \<Rightarrow> answer
           | Threw error \<Rightarrow> document_apology error))"

text \<open>
  \<^verbatim>\<open>chatWithProject\<close> (lines 70-160) has the same shape. Its prompt is assembled from the
  rows of the project by \<^verbatim>\<open>extractMultiDocumentContext\<close>, \<^verbatim>\<open>isSummarizationQuery\<close>,
  \<^verbatim>\<open>extractDetailedDocumentContent\<close> and the templates of lines 88-145, which are not
  transcribed: \<open>assembly\<close> is what the assembly ends with for the rows at hand, \<open>None\<close>
  when the prompt is built and the value thrown otherwise (a row that is \<^verbatim>\<open>null\<close>, for
  one, throws at line 112 or 142). Everything happens inside the \<^verbatim>\<open>try\<close>.
\<close>

definition project_apology :: "thrown \<Rightarrow> string" where
  "project_apology error =
     ''I apologize, but I encountered an error while processing your portfolio analysis request. '' @
     ''Please try again or contact support if the issue persists. Error: '' @
     message_or_unknown error"

definition chatWithProject :: "thrown option \<Rightarrow> string outcome \<Rightarrow> string" where
  "chatWithProject assembly generateContent =
     (case assembly of
        Some error \<Rightarrow> project_apology error
      | None \<Rightarrow>
          (case generateContent of
             Returned answer \<Rightarrow> answer
           | Threw error \<Rightarrow> project_apology error))"

section \<open>The chat route (src/app/api/chat/route.ts)\<close>

text \<open>
  The body of the request, an absent or empty string field being \<open>[]\<close> (the handler
  tests the fields for truthiness), and the answers of the services the handler awaits.
  A Supabase query answers \<open>None\<close> when it reports an error, and its \<^verbatim>\<open>data\<close> otherwise; an
  insert answers the error it reports, if any.
\<close>

record chat_body =
  chat_message :: string
  chat_fileId :: string
  chat_sessionId :: string
  chat_projectId :: string
  chat_fileIds :: "string list option"

record chat_env =
  chat_getUser :: "string option awaited"
  chat_api_key :: bool
  chat_json :: "chat_body awaited"
  select_file :: "jsval option awaited"
  select_session_files :: "string list option awaited"
  select_project_files :: "jsval list option awaited"
  insert_session :: "string option awaited"
  insert_user_message :: "js_error option awaited"
  project_assembly :: "thrown option"
  chat_generateContent :: "string outcome"
  insert_response :: "js_error option awaited"

text \<open>The answer of the handler, and the rows (role, content) that \<^verbatim>\<open>chat_messages\<close>
  took during the turn.\<close>

record chat_run =
  chat_response :: response
  chat_stored :: "(string \<times> string) list"

definition error_body :: "string \<Rightarrow> jsval" where
  "error_body msg = JObj [(''error'', JStr msg)]"

text \<open>The outer \<^verbatim>\<open>catch\<close> (lines 172-175).\<close>

definition internal_error :: response where
  "internal_error = Response 500 (error_body ''Internal server error'')"

text \<open>Lines 30-78: the file of a document chat (\<^verbatim>\<open>fileError || !data\<close> answers 404), or the
  files of a project chat.\<close>

definition chat_context :: "chat_env \<Rightarrow> chat_body \<Rightarrow> response + (jsval option \<times> jsval list)" where
  "chat_context env req =
     (if chat_fileId req \<noteq> [] then
        (case select_file env of
           Rejected e \<Rightarrow> Inl internal_error
         | Resolved None \<Rightarrow> Inl (Response 404 (error_body ''File not found''))
         | Resolved (Some fileData) \<Rightarrow>
             if js_truthy fileData then Inr (Some fileData, [])
             else Inl (Response 404 (error_body ''File not found'')))
      else if chat_projectId req \<noteq> [] then
        (case (case chat_fileIds req of
                 Some fileIds \<Rightarrow> Inr fileIds
               | None \<Rightarrow>
                  (case select_session_files env of
                     Rejected e \<Rightarrow> Inl internal_error
                   | Resolved None \<Rightarrow> Inl (Response 404 (error_body ''Session file IDs not found''))
                   | Resolved (Some file_ids) \<Rightarrow> Inr file_ids)) of
           Inl r \<Rightarrow> Inl r
         | Inr targetFileIds \<Rightarrow>
            (case select_project_files env of
               Rejected e \<Rightarrow> Inl internal_error
             | Resolved None \<Rightarrow> Inl (Response 404 (error_body ''Project files not found''))
             | Resolved (Some projectFiles) \<Rightarrow> Inr (None, projectFiles)))
      else Inr (None, []))"

text \<open>The answer of the \<^verbatim>\<open>catch\<close> of the inner \<^verbatim>\<open>try\<close> (lines 145-150).\<close>

definition failed_to_generate :: response where
  "failed_to_generate = Response 500 (error_body ''Failed to generate AI response. Please try again.'')"

text \<open>Lines 80-103: the session of the turn, created when the request names none.\<close>

definition chat_session :: "chat_env \<Rightarrow> chat_body \<Rightarrow> response + string" where
  "chat_session env req =
     (if chat_sessionId req \<noteq> [] then Inr (chat_sessionId req)
      else case insert_session env of
             Rejected e \<Rightarrow> Inl internal_error
           | Resolved None \<Rightarrow> Inl (Response 500 (error_body ''Failed to create chat session''))
           | Resolved (Some new_id) \<Rightarrow> Inr new_id)"

text \<open>Lines 119-150: the inner \<^verbatim>\<open>try\<close>. \<open>None\<close> is its \<^verbatim>\<open>catch\<close>, entered by the
  \<^verbatim>\<open>throw\<close> of line 143 and by \<^verbatim>\<open>projectFiles.map(f => f.id)\<close> of line 134, which is
  evaluated when the request names no file ids and throws on a row that is \<^verbatim>\<open>null\<close> or
  \<^verbatim>\<open>undefined\<close>. The service methods return in every case.\<close>

definition generate_response ::
  "chat_env \<Rightarrow> chat_body \<Rightarrow> jsval option \<Rightarrow> jsval list \<Rightarrow> string option" where
  "generate_response env req fileData projectFiles =
     (case fileData of
        Some fd \<Rightarrow> Some (chatWithDocument (chat_generateContent env) (js_get fd ''extracted_text''))
      | None \<Rightarrow>
          if chat_projectId req \<noteq> [] then
            if chat_fileIds req = None \<and> (JNull \<in> set projectFiles \<or> JUndefined \<in> set projectFiles)
            then None
            else Some (chatWithProject (project_assembly env) (chat_generateContent env))
          else None)"

text \<open>Lines 80-170: from the session to the answer.\<close>

definition chat_turn :: "chat_env \<Rightarrow> chat_body \<Rightarrow> jsval option \<Rightarrow> jsval list \<Rightarrow> chat_run" where
  "chat_turn env req fileData projectFiles =
     (case chat_session env req of
        Inl r \<Rightarrow> \<lparr>chat_response = r, chat_stored = []\<rparr>
      | Inr currentSessionId \<Rightarrow>
         (case insert_user_message env of
            Rejected e \<Rightarrow> \<lparr>chat_response = internal_error, chat_stored = []\<rparr>
          | Resolved (Some messageError) \<Rightarrow>
              \<lparr>chat_response = Response 500 (error_body ''Failed to save message''), chat_stored = []\<rparr>
          | Resolved None \<Rightarrow>
             (case generate_response env req fileData projectFiles of
                None \<Rightarrow>
                  \<lparr>chat_response = failed_to_generate, chat_stored = [(''user'', chat_message req)]\<rparr>
              | Some answer \<Rightarrow>
                 (case insert_response env of
                    Rejected e \<Rightarrow>
                      \<lparr>chat_response = internal_error, chat_stored = [(''user'', chat_message req)]\<rparr>
                  | Resolved (Some responseError) \<Rightarrow>
                      \<lparr>chat_response = Response 500 (error_body ''Failed to save response''),
                       chat_stored = [(''user'', chat_message req)]\<rparr>
                  | Resolved None \<Rightarrow>
                      \<lparr>chat_response =
                         Response 200
                           (JObj [(''message'', JStr answer),
                                  (''sessionId'', JStr currentSessionId),
                                  (''chatType'', JStr (case fileData of Some fd \<Rightarrow> ''document''
                                                                     | None \<Rightarrow> ''project''))]),
                       chat_stored = [(''user'', chat_message req), (''assistant'', answer)]\<rparr>))))"

text \<open>Lines 8-28: authentication, configuration and the fields of the request.\<close>

definition chat_request :: "chat_env \<Rightarrow> response + chat_body" where
  "chat_request env =
     (case chat_getUser env of
        Rejected e \<Rightarrow> Inl internal_error
      | Resolved None \<Rightarrow> Inl (Response 401 (error_body ''Unauthorized''))
      | Resolved (Some user) \<Rightarrow>
          if \<not> chat_api_key env
          then Inl (Response 500 (error_body ''AI service is not configured. Please contact support.''))
          else
           (case chat_json env of
              Rejected e \<Rightarrow> Inl internal_error
            | Resolved req \<Rightarrow>
                if chat_message req = [] \<or> (chat_fileId req = [] \<and> chat_projectId req = [])
                then Inl (Response 400 (error_body ''Message and either file ID or project ID are required''))
                else Inr req))"

definition chat_POST :: "chat_env \<Rightarrow> chat_run" where
  "chat_POST env =
     (case chat_request env of
        Inl r \<Rightarrow> \<lparr>chat_response = r, chat_stored = []\<rparr>
      | Inr req \<Rightarrow>
         (case chat_context env req of
            Inl r \<Rightarrow> \<lparr>chat_response = r, chat_stored = []\<rparr>
          | Inr ctx \<Rightarrow> chat_turn env req (fst ctx) (snd ctx)))"

text \<open>A concrete document chat: the user is signed in, the file row holds the extracted
  text of the lease, every database call succeeds, and the model call throws
  \<^verbatim>\<open>new Error('quota exceeded')\<close>.\<close>

definition sample_chat :: chat_env where
  "sample_chat =
     \<lparr>chat_getUser = Resolved (Some ''user-1''),
      chat_api_key = True,
      chat_json = Resolved \<lparr>chat_message = ''When does the lease end?'', chat_fileId = ''file-1'',
                    chat_sessionId = ''chat-1'', chat_projectId = [], chat_fileIds = None\<rparr>,
      select_file = Resolved (Some (JObj [(''id'', JStr ''file-1''),
                                          (''file_name'', JStr ''lease.pdf''),
                                          (''extracted_text'', JStr ''The term of this lease ends on 31 December 2045.''),
                                          (''analysis_results'', JNull)])),
      select_session_files = Resolved None,
      select_project_files = Resolved None,
      insert_session = Resolved None,
      insert_user_message = Resolved None,
      project_assembly = None,
      chat_generateContent = Threw (ErrorObject ''quota exceeded''),
      insert_response = Resolved None\<rparr>"

text \<open>The same chat when the model answers.\<close>

definition sample_chat_answered :: chat_env where
  "sample_chat_answered = sample_chat\<lparr>chat_generateContent := Returned ''The lease ends on 31 December 2045.''\<rparr>"
section \<open>The obligations export (src/app/api/generate-obligations-csv/route.ts)\<close>

text \<open>
  Lines 77-85 clean the model's answer before it is parsed: two global replacements
  remove the Markdown fences (\<^verbatim>\<open>/```json\n?/g\<close>, then \<^verbatim>\<open>/```\n?/g\<close>), the text is
  trimmed, and what lies between the first \<^verbatim>\<open>[\<close> and the last \<^verbatim>\<open>]\<close> is kept. The same
  lines stand in src/app/api/export-obligations/[id]/route.ts (lines 124-131).
\<close>

definition backtick :: char where
  "backtick = CHR 0x60"

definition fence :: string where
  "fence = [backtick, backtick, backtick]"

text \<open>The length of the match of a pattern followed by an optional newline at the head
  of a string; 0 when the pattern does not match there.\<close>

definition fence_len :: "string \<Rightarrow> string \<Rightarrow> nat" where
  "fence_len pat s =
     (if take (length pat) s = pat
      then (case drop (length pat) s of
              c # cs \<Rightarrow> if c = newline then length pat + 1 else length pat
            | [] \<Rightarrow> length pat)
      else 0)"

text \<open>\<^verbatim>\<open>text.replace(/pat\n?/g, '')\<close>: the matches are found from left to right, and the
  search goes on behind each match.\<close>

function replace_fence :: "string \<Rightarrow> string \<Rightarrow> string" where
  "replace_fence pat [] = []"
| "replace_fence pat (c # cs) =
     (if fence_len pat (c # cs) = 0 then c # replace_fence pat cs
      else replace_fence pat (drop (fence_len pat (c # cs)) (c # cs)))"
  by pat_completeness auto
termination
  by (relation "measure (\<lambda>(pat, s). length s)") auto

text \<open>\<^verbatim>\<open>String.prototype.trim\<close>, for the white space that one code unit below 256 can
  be (the no-break space \<open>0xA0\<close> included).\<close>

definition js_whitespace :: "char \<Rightarrow> bool" where
  "js_whitespace c \<longleftrightarrow> c \<in> {CHR 0x09, CHR 0x0A, CHR 0x0B, CHR 0x0C, CHR 0x0D, CHR 0x20, CHR 0xA0}"

definition js_trim :: "string \<Rightarrow> string" where
  "js_trim s = rev (dropWhile js_whitespace (rev (dropWhile js_whitespace s)))"

text \<open>\<^verbatim>\<open>indexOf\<close> and \<^verbatim>\<open>lastIndexOf\<close> of one character; \<open>None\<close> is \<open>-1\<close>.\<close>

definition indexOf :: "char \<Rightarrow> string \<Rightarrow> nat option" where
  "indexOf c s = (if c \<in> set s then Some (length (takeWhile (\<lambda>x. x \<noteq> c) s)) else None)"

definition lastIndexOf :: "char \<Rightarrow> string \<Rightarrow> nat option" where
  "lastIndexOf c s =
     (if c \<in> set s then Some (length s - Suc (length (takeWhile (\<lambda>x. x \<noteq> c) (rev s)))) else None)"

definition clean_response :: "string \<Rightarrow> string" where
  "clean_response raw =
     (let obligationsText = js_trim (replace_fence fence (replace_fence (fence @ ''json'') raw)) in
      case indexOf (CHR ''['') obligationsText of
        None \<Rightarrow> obligationsText
      | Some jsonStart \<Rightarrow>
         (case lastIndexOf (CHR '']'') obligationsText of
            None \<Rightarrow> obligationsText
          | Some jsonEnd \<Rightarrow>
              if jsonEnd > jsonStart
              then take (jsonEnd + 1 - jsonStart) (drop jsonStart obligationsText)
              else obligationsText))"

text \<open>The record that stands in for missing obligations (lines 96-104 and 115-123).\<close>

definition sentinel :: "string \<Rightarrow> jsval" where
  "sentinel description =
     JObj [(''party'', JStr ''N/A''),
           (''description'', JStr description),
           (''timeline'', JStr ''N/A''),
           (''enforceability'', JStr ''N/A''),
           (''phase'', JStr ''GENERAL''),
           (''consequence'', JStr ''N/A''),
           (''category'', JStr ''Information'')]"

text \<open>
  Lines 87-105. \<^verbatim>\<open>JSON.parse\<close> is the parameter \<open>parse\<close>: \<open>None\<close> when it throws, and
  objects with each key once. Inside the \<^verbatim>\<open>try\<close>, \<^verbatim>\<open>obligations.length\<close> is read for the
  console, which throws on \<^verbatim>\<open>null\<close>. The second component tells which of the two console
  lines was written: \<^verbatim>\<open>Successfully parsed obligations:\<close> or
  \<^verbatim>\<open>Failed to parse obligations JSON:\<close>.
\<close>

datatype parse_log = ParsedOk | ParseFailed

definition parse_obligations :: "(string \<Rightarrow> jsval option) \<Rightarrow> string \<Rightarrow> jsval \<times> parse_log" where
  "parse_obligations parse obligationsText =
     (case parse obligationsText of
        None \<Rightarrow> (JArr [sentinel ''Failed to extract obligations from document analysis''], ParseFailed)
      | Some v \<Rightarrow>
          if v = JNull \<or> v = JUndefined
          then (JArr [sentinel ''Failed to extract obligations from document analysis''], ParseFailed)
          else (v, ParsedOk))"









section \<open>Vocabulary for the properties of the obligations export\<close>

text \<open>A string holds a run of three backticks.\<close>

fun has_fence :: "string \<Rightarrow> bool" where
  "has_fence (a # b # c # r) = ((a = backtick \<and> b = backtick \<and> c = backtick) \<or> has_fence (b # c # r))"
| "has_fence [a, b] = False"
| "has_fence [a] = False"
| "has_fence [] = False"

text \<open>The quotation mark of a JSON string.\<close>

definition double_quote :: char where
  "double_quote = CHR 0x22"






section \<open>Properties of the Progress Channel\<close>

lemma queued_emitProgress_same:
  "queued (emitProgress now s stp st det ps) s = queued ps s @ [progressData now stp st det]"
  by (simp add: queued_def emitProgress_def Let_def split: option.splits)

lemma queued_emitProgress_other:
  "t \<noteq> s \<Longrightarrow> queued (emitProgress now s stp st det ps) t = queued ps t"
  by (simp add: queued_def emitProgress_def Let_def split: option.splits)

lemma emitProgress_other:
  "t \<noteq> s \<Longrightarrow> emitProgress now s stp st det ps t = ps t"
  by (simp add: emitProgress_def Let_def split: option.splits)

lemma drain_other:
  "t \<noteq> s \<Longrightarrow> snd (drain c s ps) t = ps t"
  by (simp add: drain_def split: option.splits)

lemma dispose_other:
  "t \<noteq> s \<Longrightarrow> dispose s ps t = ps t"
  by (simp add: dispose_def)

lemma fst_drain:
  "fst (drain True s ps) = queued ps s"
  by (simp add: drain_def queued_def split: option.splits)

lemma queued_after_drain:
  "queued (snd (drain True s ps)) s = []"
  by (simp add: drain_def queued_def split: option.splits)

lemma apply_op_other:
  "op_session op \<noteq> t \<Longrightarrow> apply_op op ps t = ps t"
  by (cases op) (simp_all add: emitProgress_other drain_other dispose_other)

lemma queued_cong:
  "ps t = ps' t \<Longrightarrow> queued ps t = queued ps' t"
  by (simp add: queued_def)

lemma queued_run_ops:
  "\<forall>op \<in> set ops. op_session op = s \<longrightarrow> is_publish op \<Longrightarrow>
   queued (run_ops ops ps) s = queued ps s @ published s ops"
proof (induction ops arbitrary: ps)
  case Nil
  then show ?case by simp
next
  case (Cons op ops)
  have rest: "queued (run_ops ops (apply_op op ps)) s = queued (apply_op op ps) s @ published s ops"
    using Cons.IH [of "apply_op op ps"] Cons.prems by simp
  show ?case
  proof (cases "op_session op = s")
    case True
    with Cons.prems obtain now stp st det where op: "op = Publish now s stp st det"
      by (cases op) auto
    show ?thesis using rest by (simp add: op queued_emitProgress_same)
  next
    case False
    have "queued (apply_op op ps) s = queued ps s"
      using False by (intro queued_cong apply_op_other)
    moreover have "published s (op # ops) = published s ops"
      using False by (cases op) auto
    ultimately show ?thesis using rest by simp
  qed
qed

lemma run_ops_append:
  "run_ops (xs @ ys) ps = run_ops ys (run_ops xs ps)"
  by (induction xs arbitrary: ps) simp_all

lemma queued_dispose:
  "queued (dispose s ps) s = []"
  by (simp add: queued_def dispose_def)

lemma queued_apply_op:
  "queued (apply_op op ps) s = pending s [op] (queued ps s)"
proof (cases op)
  case (Publish now sid stp st det)
  then show ?thesis
    by (cases "sid = s") (simp_all add: queued_emitProgress_same queued_emitProgress_other)
next
  case (Drain sid)
  then show ?thesis
    by (cases "sid = s") (simp_all add: queued_after_drain queued_cong [OF drain_other])
next
  case (Dispose sid)
  then show ?thesis
    by (cases "sid = s") (simp_all add: queued_dispose queued_cong [OF dispose_other])
qed

lemma pending_Cons:
  "pending s (op # ops) q = pending s ops (pending s [op] q)"
  by (cases op) simp_all

lemma queued_pending:
  "queued (run_ops ops ps) s = pending s ops (queued ps s)"
proof (induction ops arbitrary: ps)
  case Nil
  then show ?case by simp
next
  case (Cons op ops)
  have "queued (run_ops (op # ops) ps) s = pending s ops (queued (apply_op op ps) s)"
    using Cons.IH [of "apply_op op ps"] by simp
  also have "\<dots> = pending s ops (pending s [op] (queued ps s))"
    by (simp only: queued_apply_op)
  also have "\<dots> = pending s (op # ops) (queued ps s)"
    by (simp only: pending_Cons [of s op ops])
  finally show ?case .
qed

text \<open>
  Claim C6, amended. A drain returns the updates published for its session since the
  last drain or dispose of that session, in publish order, whatever other sessions did
  in between: (1) after any schedule, a drain of \<open>s\<close> returns what \<^const>\<open>pending\<close> computes,
  where a publication for \<open>s\<close> adds its update at the end and a drain or a dispose of \<open>s\<close>
  leaves none; (2) when \<open>s\<close> is only published to in the schedule, a drain after it returns
  every update the schedule published for \<open>s\<close>, in order, if the schedule starts right
  after a drain of \<open>s\<close>, right after a dispose of \<open>s\<close>, or from the empty store (no
  consumer has polled yet); (3) a drain is destructive: a second drain right after it
  returns nothing; (4) a dispose discards: after a schedule in which a dispose of \<open>s\<close> is
  followed only by publications for \<open>s\<close> and by operations of other sessions, a drain
  returns the updates published after the dispose, and none of those before it.
\<close>

theorem drain_fifo_destructive:
  "fst (drain True s (run_ops ops ps)) = pending s ops (queued ps s)
   \<and> ((\<forall>op \<in> set ops. op_session op = s \<longrightarrow> is_publish op) \<longrightarrow>
        fst (drain True s (run_ops ops (snd (drain True s ps)))) = published s ops
      \<and> fst (drain True s (run_ops ops (dispose s ps))) = published s ops
      \<and> fst (drain True s (run_ops ops Map.empty)) = published s ops)
   \<and> fst (drain True s (snd (drain True s ps))) = []
   \<and> ((\<forall>op \<in> set post. op_session op = s \<longrightarrow> is_publish op) \<longrightarrow>
        fst (drain True s (run_ops (pre @ Dispose s # post) ps)) = published s post)"
proof -
  have a: "fst (drain True s (run_ops ops ps)) = pending s ops (queued ps s)"
    by (simp only: fst_drain queued_pending)
  have b: "fst (drain True s (run_ops ops (snd (drain True s ps)))) = published s ops"
    "fst (drain True s (run_ops ops (dispose s ps))) = published s ops"
    "fst (drain True s (run_ops ops Map.empty)) = published s ops"
    if h: "\<forall>op \<in> set ops. op_session op = s \<longrightarrow> is_publish op"
  proof -
    show "fst (drain True s (run_ops ops (snd (drain True s ps)))) = published s ops"
      using queued_run_ops [OF h, of "snd (drain True s ps)"]
      by (simp add: fst_drain queued_after_drain)
    show "fst (drain True s (run_ops ops (dispose s ps))) = published s ops"
      using queued_run_ops [OF h, of "dispose s ps"]
      by (simp add: fst_drain queued_dispose)
    show "fst (drain True s (run_ops ops Map.empty)) = published s ops"
      using queued_run_ops [OF h, of Map.empty]
      by (simp add: fst_drain queued_def)
  qed
  have c: "fst (drain True s (snd (drain True s ps))) = []"
    by (simp add: fst_drain queued_after_drain)
  have d: "fst (drain True s (run_ops (pre @ Dispose s # post) ps)) = published s post"
    if h: "\<forall>op \<in> set post. op_session op = s \<longrightarrow> is_publish op"
    using queued_run_ops [OF h, of "dispose s (run_ops pre ps)"]
    by (simp add: fst_drain queued_dispose run_ops_append)
  from a b c d show ?thesis by blast
qed

theorem drain_fifo_destructive_witness:
  "fst (drain True ''a''
      (run_ops [Publish ''t1'' ''a'' ''Parsing form data...'' Active JUndefined,
                Publish ''t2'' ''b'' ''Uploading to storage...'' Active JUndefined,
                Drain ''b'',
                Publish ''t3'' ''a'' ''Form data parsed successfully'' Completed JUndefined]
         Map.empty))
   = [progressData ''t1'' ''Parsing form data...'' Active JUndefined,
      progressData ''t3'' ''Form data parsed successfully'' Completed JUndefined]
   \<and> fst (drain True ''a''
      (run_ops ([Publish ''t0'' ''a'' ''Parsing form data...'' Active JUndefined] @ Dispose ''a'' #
                [Publish ''t1'' ''a'' ''Uploading to storage...'' Active JUndefined,
                 Drain ''b'',
                 Publish ''t2'' ''a'' ''File uploaded successfully'' Completed JUndefined])
         Map.empty))
   = [progressData ''t1'' ''Uploading to storage...'' Active JUndefined,
      progressData ''t2'' ''File uploaded successfully'' Completed JUndefined]"
proof -
  let ?ops = "[Publish ''t1'' ''a'' ''Parsing form data...'' Active JUndefined,
               Publish ''t2'' ''b'' ''Uploading to storage...'' Active JUndefined,
               Drain ''b'',
               Publish ''t3'' ''a'' ''Form data parsed successfully'' Completed JUndefined]"
  let ?pre = "[Publish ''t0'' ''a'' ''Parsing form data...'' Active JUndefined]"
  let ?post = "[Publish ''t1'' ''a'' ''Uploading to storage...'' Active JUndefined,
                Drain ''b'',
                Publish ''t2'' ''a'' ''File uploaded successfully'' Completed JUndefined]"
  have h1: "\<forall>op \<in> set ?ops. op_session op = ''a'' \<longrightarrow> is_publish op" by simp
  have h2: "\<forall>op \<in> set ?post. op_session op = ''a'' \<longrightarrow> is_publish op" by simp
  from drain_fifo_destructive [of "''a''" ?ops Map.empty ?post ?pre] h1 h2
  have "fst (drain True ''a'' (run_ops ?ops Map.empty)) = published ''a'' ?ops"
    and "fst (drain True ''a'' (run_ops (?pre @ Dispose ''a'' # ?post) Map.empty)) = published ''a'' ?post"
    by blast+
  then show ?thesis by simp
qed

text \<open>
  Claim C6 as it is written fails when the consumer of a session disconnects: the abort
  listener deletes the queue, so an update published before any drain, and so before
  any consumer has received it, is not returned by the first drain that follows.
\<close>

theorem disposed_updates_are_not_delivered:
  "fst (drain True ''a''
      (run_ops [Publish ''t1'' ''a'' ''Parsing form data...'' Active JUndefined,
                Dispose ''a'',
                Publish ''t2'' ''a'' ''Form data parsed successfully'' Completed JUndefined]
         Map.empty))
   = [progressData ''t2'' ''Form data parsed successfully'' Completed JUndefined]
   \<and> published ''a''
        [Publish ''t1'' ''a'' ''Parsing form data...'' Active JUndefined,
         Dispose ''a'',
         Publish ''t2'' ''a'' ''Form data parsed successfully'' Completed JUndefined]
   = [progressData ''t1'' ''Parsing form data...'' Active JUndefined,
      progressData ''t2'' ''Form data parsed successfully'' Completed JUndefined]
   \<and> fst (drain True ''a''
      (run_ops [Publish ''t1'' ''a'' ''Parsing form data...'' Active JUndefined,
                Dispose ''a'',
                Publish ''t2'' ''a'' ''Form data parsed successfully'' Completed JUndefined]
         Map.empty))
   \<noteq> published ''a''
        [Publish ''t1'' ''a'' ''Parsing form data...'' Active JUndefined,
         Dispose ''a'',
         Publish ''t2'' ''a'' ''Form data parsed successfully'' Completed JUndefined]"
  by (simp add: drain_def emitProgress_def dispose_def Let_def)

text \<open>
  Claim C9. For distinct session ids \<open>s\<close> and \<open>t\<close>, publishing to \<open>s\<close>, draining \<open>s\<close>
  (connected or not) and disposing of \<open>s\<close> each leave the entry of \<open>t\<close> in the store,
  and so the updates queued for \<open>t\<close>, as they were.
\<close>

theorem session_frame:
  assumes "s \<noteq> t"
  shows "emitProgress now s stp st det ps t = ps t
       \<and> snd (drain c s ps) t = ps t
       \<and> dispose s ps t = ps t
       \<and> queued (emitProgress now s stp st det ps) t = queued ps t
       \<and> queued (snd (drain c s ps)) t = queued ps t
       \<and> queued (dispose s ps) t = queued ps t"
  using assms
  by (simp add: emitProgress_other drain_other dispose_other queued_def)

theorem session_frame_witness:
  "queued (snd (drain True ''a'' (emitProgress ''t1'' ''b'' ''y'' Active JUndefined Map.empty))) ''b''
   = [progressData ''t1'' ''y'' Active JUndefined]"
proof -
  have ne: "''a'' \<noteq> ''b''" by simp
  have e: "queued Map.empty ''b'' = []" by (simp add: queued_def)
  show ?thesis
    using session_frame [OF ne, of _ _ _ _ "emitProgress ''t1'' ''b'' ''y'' Active JUndefined Map.empty" True]
    by (simp add: queued_emitProgress_same e)
qed

section \<open>Properties of the upload route\<close>

lemma fst_extraction: "fst (extraction env sid t) = extractedText env"
  by (simp add: extraction_def extractedText_def Let_def handleError_def js_get_def js_text_def split: awaited.splits)

lemma store_file_InrD:
  "store_file env sid u f t = Inr st \<Longrightarrow>
     arrayBuffer env = Resolved () \<and> storage_upload env = Resolved (Inr (fst st))"
  by (auto simp: store_file_def Let_def split: awaited.splits sum.splits)

lemma after_form_InrD:
  assumes "after_form env u form t0 = Inr c"
  shows "file_validation (form_file form) = Inr (g_file c) \<and>
         arrayBuffer env = Resolved () \<and> storage_upload env = Resolved (Inr (g_path c)) \<and>
         g_user c = u \<and> g_modes c = requested_modes form \<and>
         g_leaseType c = lease_type_of form \<and> g_sessionId c = session_of env form \<and>
         g_text c = extractedText env"
proof (cases "file_validation (form_file form)")
  case (Inl e)
  with assms show ?thesis by (simp add: after_form_def Let_def)
next
  case (Inr fl)
  let ?t2 = "logProgressCompleted env ''Form data parsed successfully'' (form_details form)
               (session_of env form)
               (logProgress env ''Parsing form data...'' JUndefined (session_of env form) t0)"
  show ?thesis
  proof (cases "store_file env (session_of env form) u fl ?t2")
    case (Inl r)
    with assms Inr show ?thesis by (simp add: after_form_def Let_def)
  next
    case st: (Inr stored)
    from store_file_InrD [OF st] have "arrayBuffer env = Resolved ()"
      and "storage_upload env = Resolved (Inr (fst stored))" by simp_all
    moreover from assms Inr st have
      "c = \<lparr>g_sessionId = session_of env form, g_user = u, g_file = fl,
            g_leaseType = lease_type_of form, g_modes = requested_modes form,
            g_path = fst stored, g_text = extractedText env,
            g_trace = logProgress env ''Starting analysis...''
                        (JObj [(''modes'', JArr (map JStr (requested_modes form))),
                               (''leaseType'', JStr (lease_type_of form))]) (session_of env form)
                        (snd (extraction env (session_of env form) (snd stored)))\<rparr>"
      by (simp add: after_form_def Let_def fst_extraction)
    ultimately show ?thesis using Inr by simp
  qed
qed

lemma ingest_InrD:
  assumes "ingest env = Inr c"
  shows "\<exists>form. gemini_api_key env \<and> getUser env = Resolved (Inr (Some (g_user c))) \<and>
           formData env = Resolved form \<and> file_validation (form_file form) = Inr (g_file c) \<and>
           arrayBuffer env = Resolved () \<and> storage_upload env = Resolved (Inr (g_path c)) \<and>
           g_modes c = requested_modes form \<and>
           g_leaseType c = lease_type_of form \<and> g_sessionId c = session_of env form \<and>
           g_text c = extractedText env"
proof -
  from assms have key: "gemini_api_key env"
    by (simp add: ingest_def Let_def split: if_splits)
  from assms key obtain u where u: "getUser env = Resolved (Inr (Some u))"
    by (auto simp: ingest_def Let_def split: awaited.splits sum.splits option.splits)
  from assms key u obtain form where f: "formData env = Resolved form"
    by (auto simp: ingest_def Let_def split: awaited.splits)
  from assms key u f have "after_form env u form \<lparr>events = [], reads = 0\<rparr> = Inr c"
    by (simp add: ingest_def Let_def)
  from after_form_InrD [OF this] key u f show ?thesis by auto
qed

lemma is_ErrorEnvelope_handleError:
  "is_ErrorEnvelope (error_text e)
     (ErrorEnvelope (js_get (handleError now e ctx) ''error'') (js_get (handleError now e ctx) ''timestamp''))"
  by (simp add: is_ErrorEnvelope_def ErrorEnvelope_def handleError_def js_get_def)

lemma LEASE_registry:
  "mode \<in> set registry \<Longrightarrow> LEASE_ANALYSIS_PROMPTS env mode = Some (prompt_text env mode)"
  by (simp add: LEASE_ANALYSIS_PROMPTS_def)

lemma registry_not_proto:
  "mode \<in> set registry \<Longrightarrow> mode \<noteq> ''__proto__''"
  by (auto simp: registry_def)

lemma analyse_mode_calls:
  "mode \<in> set registry \<Longrightarrow>
   calls (analyse_mode env c i mode st) = calls st @ [contextualPrompt env mode (g_leaseType c) (g_text c)]"
  by (simp add: analyse_mode_def LEASE_registry Let_def split: awaited.splits)

lemma analyse_mode_results:
  assumes "mode \<in> set registry"
  shows "\<exists>v. results (analyse_mode env c i mode st) = AList.update mode v (results st) \<and>
             stored_outcome env i v"
proof (cases "analyse env i")
  case (Resolved answer)
  then show ?thesis using assms
    by (simp add: analyse_mode_def LEASE_registry Let_def set_property_def registry_not_proto stored_outcome_def)
next
  case (Rejected e)
  then show ?thesis using assms is_ErrorEnvelope_handleError
    by (simp add: analyse_mode_def LEASE_registry Let_def set_property_def registry_not_proto stored_outcome_def)
       blast
qed

lemma analyse_mode_other:
  "m \<noteq> mode \<Longrightarrow> map_of (results (analyse_mode env c i mode st)) m = map_of (results st) m"
  by (simp add: analyse_mode_def Let_def set_property_def update_conv' split: option.splits awaited.splits)

lemma loop_calls:
  "set modes \<subseteq> set registry \<Longrightarrow>
   calls (analysis_loop env c i modes st) =
     calls st @ map (\<lambda>mode. contextualPrompt env mode (g_leaseType c) (g_text c)) modes"
  by (induction modes arbitrary: i st) (simp_all add: analyse_mode_calls)

lemma loop_other:
  "m \<notin> set modes \<Longrightarrow> map_of (results (analysis_loop env c i modes st)) m = map_of (results st) m"
  by (induction modes arbitrary: i st) (simp_all add: analyse_mode_other)

lemma loop_lookup:
  "set modes \<subseteq> set registry \<Longrightarrow> j < length modes \<Longrightarrow> modes ! j \<notin> set (drop (Suc j) modes) \<Longrightarrow>
   \<exists>v. map_of (results (analysis_loop env c i modes st)) (modes ! j) = Some v \<and> stored_outcome env (i + j) v"
proof (induction modes arbitrary: i j st)
  case Nil
  then show ?case by simp
next
  case (Cons mode modes)
  show ?case
  proof (cases j)
    case 0
    from Cons.prems have valid: "mode \<in> set registry" by simp
    from analyse_mode_results [OF valid, of env c i st] obtain v
      where r: "results (analyse_mode env c i mode st) = AList.update mode v (results st)"
        and o: "stored_outcome env i v" by blast
    from Cons.prems 0 have "mode \<notin> set modes" by simp
    then have "map_of (results (analysis_loop env c (Suc i) modes (analyse_mode env c i mode st))) mode
                 = map_of (results (analyse_mode env c i mode st)) mode"
      by (rule loop_other)
    with r o 0 show ?thesis by (simp add: update_conv')
  next
    case (Suc k)
    with Cons.prems have "set modes \<subseteq> set registry" "k < length modes"
      "modes ! k \<notin> set (drop (Suc k) modes)" by simp_all
    from Cons.IH [OF this, of "Suc i" "analyse_mode env c i mode st"] Suc
    show ?thesis by simp
  qed
qed

lemma loop_keys_set:
  "set modes \<subseteq> set registry \<Longrightarrow>
   set (map fst (results (analysis_loop env c i modes st))) = set (map fst (results st)) \<union> set modes"
proof (induction modes arbitrary: i st)
  case Nil
  then show ?case by simp
next
  case (Cons mode modes)
  then have valid: "mode \<in> set registry" and rest: "set modes \<subseteq> set registry" by simp_all
  from analyse_mode_results [OF valid, of env c i st] obtain v
    where r: "results (analyse_mode env c i mode st) = AList.update mode v (results st)" by blast
  show ?case using Cons.IH [OF rest, of "Suc i" "analyse_mode env c i mode st"]
    by (auto simp: r update_keys)
qed

lemma loop_keys_distinct:
  "set modes \<subseteq> set registry \<Longrightarrow> distinct (map fst (results st)) \<Longrightarrow>
   distinct (map fst (results (analysis_loop env c i modes st)))"
proof (induction modes arbitrary: i st)
  case Nil
  then show ?case by simp
next
  case (Cons mode modes)
  then have valid: "mode \<in> set registry" and rest: "set modes \<subseteq> set registry" by simp_all
  from analyse_mode_results [OF valid, of env c i st] obtain v
    where r: "results (analyse_mode env c i mode st) = AList.update mode v (results st)" by blast
  have "distinct (map fst (results (analyse_mode env c i mode st)))"
    using Cons.prems(2) by (simp add: r distinct_update)
  from Cons.IH [OF rest this] show ?case by simp
qed

lemma loop_keys_order:
  "set modes \<subseteq> set registry \<Longrightarrow> distinct modes \<Longrightarrow> set modes \<inter> set (map fst (results st)) = {} \<Longrightarrow>
   map fst (results (analysis_loop env c i modes st)) = map fst (results st) @ modes"
proof (induction modes arbitrary: i st)
  case Nil
  then show ?case by simp
next
  case (Cons mode modes)
  then have valid: "mode \<in> set registry" and rest: "set modes \<subseteq> set registry" by simp_all
  from analyse_mode_results [OF valid, of env c i st] obtain v
    where r: "results (analyse_mode env c i mode st) = AList.update mode v (results st)" by blast
  have k: "map fst (results (analyse_mode env c i mode st)) = map fst (results st) @ [mode]"
    using Cons.prems(3) by (auto simp: r update_keys)
  have "set modes \<inter> set (map fst (results (analyse_mode env c i mode st))) = {}"
    using Cons.prems(2,3) by (auto simp: k)
  from Cons.IH [OF rest _ this] Cons.prems(2) show ?case by (simp add: k)
qed

lemma insufficient_iff: "insufficient t \<longleftrightarrow> length t < 100"
  by (auto simp: insufficient_def)

lemma POST_Inr: "ingest env = Inr c \<Longrightarrow> POST env = analyse_and_save env c"
  by (simp add: POST_def)

lemma POST_Inl: "ingest env = Inl rt \<Longrightarrow> POST env = early rt"
  by (simp add: POST_def)

lemma save_fields:
  assumes "\<not> insufficient (g_text c)"
  shows "model_calls (analyse_and_save env c) =
           calls (analysis_loop env c 0 (g_modes c) \<lparr>results = [], calls = [], ltrace = g_trace c\<rparr>)"
    and "analysisResults (analyse_and_save env c) =
           results (analysis_loop env c 0 (g_modes c) \<lparr>results = [], calls = [], ltrace = g_trace c\<rparr>)"
    and "inserted (analyse_and_save env c) = Some (file_row c (analysisResults (analyse_and_save env c)))"
  using assms by (simp_all add: analyse_and_save_def Let_def split: prod.splits)

lemma save_response:
  assumes "\<not> insufficient (g_text c)" and "db_insert env = Resolved (Inr fileData)"
    and "fileData \<noteq> JNull" and "fileData \<noteq> JUndefined"
  shows "response (analyse_and_save env c) =
           Response 200 (JObj [(''message'', JStr ''File uploaded and analyzed successfully''),
                               (''file'', fileData),
                               (''analysis'', JObj (analysisResults (analyse_and_save env c))),
                               (''sessionId'', JStr (g_sessionId c))])"
  using assms by (simp add: analyse_and_save_def Let_def split: prod.splits)

lemma save_insufficient:
  assumes "insufficient (g_text c)"
  shows "analyse_and_save env c =
           early (respond_error env (JsError (Some ''Insufficient text content extracted from PDF for analysis''))
                    ''Text Analysis Prerequisite'' 400 (g_trace c))"
  using assms by (simp add: analyse_and_save_def)

text \<open>An insert that reports neither an error nor a row ends in the outer
  \<^verbatim>\<open>catch\<close>: the answer is 500 and carries no mapping.\<close>

lemma save_null_row:
  assumes "\<not> insufficient (g_text c)" and "db_insert env = Resolved (Inr JNull)"
  shows "status_code (response (analyse_and_save env c)) = 500"
    and "js_get (body (response (analyse_and_save env c))) ''analysis'' = JUndefined"
    and "js_get (body (response (analyse_and_save env c))) ''context'' = JStr ''Upload Process''"
  using assms by (simp_all add: analyse_and_save_def Let_def unexpected_def js_get_def split: prod.splits)

text \<open>
  Claim C1. Take an upload that reaches the analysis stage with context \<open>c\<close>, passes the
  content gate, and requests modes of the registry only. Whatever the model calls of
  the loop answer (any of them may throw), (1) one model call is made for every
  requested mode, in order; (2) the insert is reached, with a row that holds the result
  mapping; (3) for every position \<open>j\<close> of the mode list whose mode is not requested
  again later, the mode's key holds the raw text of call \<open>j\<close> when it succeeded and an
  envelope \<^verbatim>\<open>{error: true, message, timestamp}\<close> with the error's message when it
  threw; (4) when the insert resolves with a row (a value that is not \<^verbatim>\<open>null\<close> or
  \<^verbatim>\<open>undefined\<close>), the answer is the 200 response that carries this mapping under
  \<^verbatim>\<open>analysis\<close>. (A mode requested twice is called twice and its
  key holds the later outcome.)
\<close>

theorem mode_failure_isolated:
  assumes "ingest env = Inr c" and "\<not> insufficient (g_text c)" and "set (g_modes c) \<subseteq> set registry"
  shows "model_calls (POST env) = map (\<lambda>mode. contextualPrompt env mode (g_leaseType c) (g_text c)) (g_modes c)
       \<and> inserted (POST env) = Some (file_row c (analysisResults (POST env)))
       \<and> (\<forall>j < length (g_modes c). g_modes c ! j \<notin> set (drop (Suc j) (g_modes c)) \<longrightarrow>
            (\<exists>v. map_of (analysisResults (POST env)) (g_modes c ! j) = Some v \<and> stored_outcome env j v))
       \<and> (\<forall>fileData. db_insert env = Resolved (Inr fileData) \<and> fileData \<noteq> JNull \<and> fileData \<noteq> JUndefined \<longrightarrow>
            response (POST env) =
              Response 200 (JObj [(''message'', JStr ''File uploaded and analyzed successfully''),
                                  (''file'', fileData),
                                  (''analysis'', JObj (analysisResults (POST env))),
                                  (''sessionId'', JStr (g_sessionId c))]))"
proof -
  note P = POST_Inr [OF assms(1)]
  have a: "model_calls (POST env) = map (\<lambda>mode. contextualPrompt env mode (g_leaseType c) (g_text c)) (g_modes c)"
    by (simp add: P save_fields(1) [OF assms(2)] loop_calls [OF assms(3)])
  have b: "inserted (POST env) = Some (file_row c (analysisResults (POST env)))"
    by (simp add: P save_fields(3) [OF assms(2)])
  have c: "\<exists>v. map_of (analysisResults (POST env)) (g_modes c ! j) = Some v \<and> stored_outcome env j v"
    if "j < length (g_modes c)" "g_modes c ! j \<notin> set (drop (Suc j) (g_modes c))" for j
    using loop_lookup [OF assms(3) that, of env c 0 "\<lparr>results = [], calls = [], ltrace = g_trace c\<rparr>"]
    by (simp add: P save_fields(2) [OF assms(2)])
  have d: "response (POST env) =
              Response 200 (JObj [(''message'', JStr ''File uploaded and analyzed successfully''),
                                  (''file'', fileData),
                                  (''analysis'', JObj (analysisResults (POST env))),
                                  (''sessionId'', JStr (g_sessionId c))])"
    if "db_insert env = Resolved (Inr fileData) \<and> fileData \<noteq> JNull \<and> fileData \<noteq> JUndefined" for fileData
    using save_response [OF assms(2), of env fileData] that by (simp add: P)
  from a b c d show ?thesis by blast
qed

lemma sample_ingest: "\<exists>c. ingest sample_env = Inr c"
  by (simp add: sample_env_def sample_form_def ingest_def after_form_def store_file_def file_validation_def maxSize_def Let_def)

lemma sample_text: "extractedText sample_env = replicate 120 (CHR ''x'')"
  by (simp add: extractedText_def sample_env_def)

lemma sample_modes: "requested_modes sample_form = [''standard'', ''legal'']"
  by (simp add: requested_modes_def sample_form_def)

lemma sample_ctx:
  assumes "ingest sample_env = Inr c"
  shows "g_modes c = [''standard'', ''legal'']" and "g_text c = replicate 120 (CHR ''x'')"
proof -
  from ingest_InrD [OF assms] obtain form where f: "formData sample_env = Resolved form"
    and m: "g_modes c = requested_modes form" and t: "g_text c = extractedText sample_env" by blast
  from f have "form = sample_form" by (simp add: sample_env_def)
  with m show "g_modes c = [''standard'', ''legal'']" by (simp add: sample_modes)
  from t show "g_text c = replicate 120 (CHR ''x'')" by (simp add: sample_text)
qed

theorem mode_failure_isolated_witness:
  "length (model_calls (POST sample_env)) = 2
   \<and> map_of (analysisResults (POST sample_env)) ''standard'' = Some (JStr ''{}'')
   \<and> (\<exists>v. map_of (analysisResults (POST sample_env)) ''legal'' = Some v \<and> is_ErrorEnvelope ''quota exceeded'' v)
   \<and> status_code (response (POST sample_env)) = 200
   \<and> js_get (body (response (POST sample_env))) ''analysis'' = JObj (analysisResults (POST sample_env))"
proof -
  from sample_ingest obtain c where c: "ingest sample_env = Inr c" ..
  note m = sample_ctx(1) [OF c] and t = sample_ctx(2) [OF c]
  have g: "\<not> insufficient (g_text c)" by (simp add: t insufficient_iff)
  have v: "set (g_modes c) \<subseteq> set registry" by (simp add: m registry_def)
  have db: "db_insert sample_env = Resolved (Inr (JObj [(''id'', JStr ''file-1'')]))"
    by (simp add: sample_env_def)
  have a0: "analyse sample_env 0 = Resolved ''{}''" and a1: "analyse sample_env (Suc 0) = Rejected (JsError (Some ''quota exceeded''))"
    by (simp_all add: sample_env_def)
  from mode_failure_isolated [OF c g v]
  have calls: "length (model_calls (POST sample_env)) = 2"
    and look: "\<And>j. j < 2 \<Longrightarrow> [''standard'', ''legal''] ! j \<notin> set (drop (Suc j) [''standard'', ''legal'']) \<Longrightarrow>
            (\<exists>v. map_of (analysisResults (POST sample_env)) ([''standard'', ''legal''] ! j) = Some v \<and> stored_outcome sample_env j v)"
    and resp: "response (POST sample_env) =
              Response 200 (JObj [(''message'', JStr ''File uploaded and analyzed successfully''),
                                  (''file'', JObj [(''id'', JStr ''file-1'')]),
                                  (''analysis'', JObj (analysisResults (POST sample_env))),
                                  (''sessionId'', JStr (g_sessionId c))])"
    using db by (simp_all add: m)
  from look [of 0] have s: "map_of (analysisResults (POST sample_env)) ''standard'' = Some (JStr ''{}'')"
    by (simp add: stored_outcome_def a0)
  from look [of 1] have l: "\<exists>v. map_of (analysisResults (POST sample_env)) ''legal'' = Some v \<and> is_ErrorEnvelope ''quota exceeded'' v"
    by (simp add: stored_outcome_def a1 error_text_def)
  from calls s l resp show ?thesis by (simp add: js_get_def)
qed

text \<open>
  Claim C4. For an upload that reaches the analysis stage, passes the content gate and
  requests modes of the registry only (the list is never empty), the keys of the result
  mapping are exactly the requested modes, each once, whether the modes succeeded or
  failed; when no mode is requested twice the keys are the requested list, in its
  order. When the insert resolves with a row (a value that is not \<^verbatim>\<open>null\<close> or
  \<^verbatim>\<open>undefined\<close>), the mapping is the \<^verbatim>\<open>analysis\<close> of the answer.
\<close>

theorem result_keys_are_requested_modes:
  assumes "ingest env = Inr c" and "\<not> insufficient (g_text c)" and "set (g_modes c) \<subseteq> set registry"
  shows "set (map fst (analysisResults (POST env))) = set (g_modes c)
       \<and> distinct (map fst (analysisResults (POST env)))
       \<and> (distinct (g_modes c) \<longrightarrow> map fst (analysisResults (POST env)) = g_modes c)
       \<and> (\<forall>fileData. db_insert env = Resolved (Inr fileData) \<and> fileData \<noteq> JNull \<and> fileData \<noteq> JUndefined \<longrightarrow>
            js_get (body (response (POST env))) ''analysis'' = JObj (analysisResults (POST env)))"
proof -
  note P = POST_Inr [OF assms(1)]
  let ?st = "\<lparr>results = [], calls = [], ltrace = g_trace c\<rparr>"
  have r: "analysisResults (POST env) = results (analysis_loop env c 0 (g_modes c) ?st)"
    by (simp add: P save_fields(2) [OF assms(2)])
  have a: "set (map fst (analysisResults (POST env))) = set (g_modes c)"
    using loop_keys_set [OF assms(3), of env c 0 ?st] by (simp add: r)
  have b: "distinct (map fst (analysisResults (POST env)))"
    using loop_keys_distinct [OF assms(3), of ?st env c 0] by (simp add: r)
  have c: "map fst (analysisResults (POST env)) = g_modes c" if "distinct (g_modes c)"
    using loop_keys_order [OF assms(3) that, of ?st env c 0] by (simp add: r)
  have d: "js_get (body (response (POST env))) ''analysis'' = JObj (analysisResults (POST env))"
    if "db_insert env = Resolved (Inr fileData) \<and> fileData \<noteq> JNull \<and> fileData \<noteq> JUndefined" for fileData
    using save_response [OF assms(2), of env fileData] that by (simp add: P js_get_def)
  from a b c d show ?thesis by blast
qed

theorem result_keys_are_requested_modes_witness:
  "map fst (analysisResults (POST sample_env)) = [''standard'', ''legal'']
   \<and> js_get (body (response (POST sample_env))) ''analysis'' = JObj (analysisResults (POST sample_env))"
proof -
  from sample_ingest obtain c where c: "ingest sample_env = Inr c" ..
  note m = sample_ctx(1) [OF c] and t = sample_ctx(2) [OF c]
  have g: "\<not> insufficient (g_text c)" by (simp add: t insufficient_iff)
  have v: "set (g_modes c) \<subseteq> set registry" by (simp add: m registry_def)
  have db: "db_insert sample_env = Resolved (Inr (JObj [(''id'', JStr ''file-1'')]))"
    by (simp add: sample_env_def)
  from result_keys_are_requested_modes [OF c g v] db show ?thesis by (simp add: m)
qed

lemma early_fields:
  "model_calls (early rt) = []" "analysisResults (early rt) = []" "inserted (early rt) = None"
  "response (early rt) = fst rt" "emitted (early rt) = events (snd rt)"
  by (simp_all add: early_def)

lemma store_file_status:
  "store_file env sid u f t = Inl rt \<Longrightarrow> status_code (fst rt) \<in> {400, 500}"
  by (auto simp: store_file_def Let_def respond_error_def unexpected_def split: awaited.splits sum.splits)

lemma after_form_status:
  "after_form env u form t = Inl rt \<Longrightarrow> status_code (fst rt) \<in> {400, 500}"
  by (auto simp: after_form_def Let_def respond_error_def split: sum.splits dest: store_file_status)

lemma ingest_status:
  "ingest env = Inl rt \<Longrightarrow> status_code (fst rt) \<in> {400, 401, 500}"
  by (auto simp: ingest_def Let_def respond_error_def unexpected_def
      split: if_splits awaited.splits sum.splits option.splits dest: after_form_status)

text \<open>
  Claim C3. When the extracted text is shorter than 100 characters, no model call of
  the analysis loop is made, no result is stored, the insert is not reached, and the
  answer is an error; for an upload that reaches the analysis stage the answer is the
  400 response of the content gate (context \<^verbatim>\<open>Text Analysis Prerequisite\<close>), and nothing
  is emitted after the gate.
\<close>

theorem insufficient_content_fails:
  assumes "length (extractedText env) < 100"
  shows "model_calls (POST env) = [] \<and> analysisResults (POST env) = [] \<and> inserted (POST env) = None
       \<and> status_code (response (POST env)) \<in> {400, 401, 500}
       \<and> (\<forall>c. ingest env = Inr c \<longrightarrow>
            response (POST env) =
              Response 400 (handleError (clock env (reads (g_trace c)))
                 (JsError (Some ''Insufficient text content extracted from PDF for analysis''))
                 ''Text Analysis Prerequisite'')
            \<and> emitted (POST env) = events (g_trace c))"
proof (cases "ingest env")
  case (Inl rt)
  then show ?thesis using ingest_status [OF Inl] by (simp add: POST_Inl early_fields)
next
  case (Inr c)
  from ingest_InrD [OF Inr] have "g_text c = extractedText env" by blast
  with assms have "insufficient (g_text c)" by (simp add: insufficient_iff)
  from save_insufficient [OF this, of env] show ?thesis
    by (simp add: POST_Inr [OF Inr] Inr early_fields respond_error_def tick_def)
qed

theorem insufficient_content_fails_witness:
  "model_calls (POST (sample_env\<lparr>extract_text := Resolved ''Page 1''\<rparr>)) = []
   \<and> inserted (POST (sample_env\<lparr>extract_text := Resolved ''Page 1''\<rparr>)) = None
   \<and> response (POST (sample_env\<lparr>extract_text := Resolved ''Page 1''\<rparr>)) =
       Response 400 (JObj [(''error'', JStr ''Insufficient text content extracted from PDF for analysis''),
                           (''context'', JStr ''Text Analysis Prerequisite''),
                           (''timestamp'', JStr ''2025-01-01T00:00:00.000Z'')])"
proof -
  let ?env = "sample_env\<lparr>extract_text := Resolved ''Page 1''\<rparr>"
  have short: "length (extractedText ?env) < 100" by (simp add: extractedText_def)
  have "\<exists>c. ingest ?env = Inr c"
    by (simp add: sample_env_def sample_form_def ingest_def after_form_def store_file_def
        file_validation_def maxSize_def Let_def)
  then obtain c where c: "ingest ?env = Inr c" ..
  from insufficient_content_fails [OF short] c show ?thesis
    by (simp add: handleError_def error_text_def sample_env_def)
qed

lemma file_validation_Inl_iff:
  "(\<exists>e. file_validation f = Inl e) \<longleftrightarrow>
     (f = None \<or> (\<exists>fl. f = Some fl \<and> (file_type fl \<noteq> ''application/pdf'' \<or> 50 * 1024 * 1024 < file_size fl)))"
  by (auto simp: file_validation_def maxSize_def split: option.splits)

lemma store_file_not_validation:
  "store_file env sid u f t = Inl rt \<Longrightarrow> fst rt \<noteq> Response 400 (handleError ts e ''File Validation'')"
  by (auto simp: store_file_def Let_def respond_error_def unexpected_def handleError_def
      split: awaited.splits sum.splits)

lemma save_not_validation:
  "response (analyse_and_save env c) \<noteq> Response 400 (handleError ts e ''File Validation'')"
  by (auto simp: analyse_and_save_def Let_def early_def respond_error_def unexpected_def handleError_def
      split: awaited.splits sum.splits prod.splits if_splits)

lemma after_form_validation:
  "(\<exists>ts e. response (case after_form env u form t of Inl rt \<Rightarrow> early rt | Inr c \<Rightarrow> analyse_and_save env c)
             = Response 400 (handleError ts e ''File Validation''))
   \<longleftrightarrow> (\<exists>e. file_validation (form_file form) = Inl e)"
proof (cases "file_validation (form_file form)")
  case (Inl e)
  then show ?thesis
    by (auto simp: after_form_def Let_def early_def respond_error_def)
next
  case (Inr fl)
  show ?thesis
  proof (cases "after_form env u form t")
    case rt: (Inl rt)
    with Inr have "store_file env (session_of env form) u fl
        (logProgressCompleted env ''Form data parsed successfully'' (form_details form) (session_of env form)
           (logProgress env ''Parsing form data...'' JUndefined (session_of env form) t)) = Inl rt"
      by (simp add: after_form_def Let_def split: sum.splits)
    from store_file_not_validation [OF this] show ?thesis
      by (simp add: rt Inr early_def)
  next
    case c: (Inr c)
    show ?thesis by (simp add: c Inr save_not_validation)
  qed
qed

text \<open>
  Claim C5, amended. For a request with the API key configured, an authenticated user
  and a parsed form, the handler answers with the 400 response of the file validation
  exactly when the file checks refuse the upload, and they refuse it exactly when no
  file is present, or the declared type is not \<^verbatim>\<open>application/pdf\<close>, or the size exceeds
  50 MiB. PDF is the only type that passes.
\<close>

theorem validation_rejects_all_but_pdf:
  assumes "gemini_api_key env" and "getUser env = Resolved (Inr (Some u))" and "formData env = Resolved form"
  shows "((\<exists>e. file_validation (form_file form) = Inl e) \<longleftrightarrow>
            (form_file form = None \<or>
             (\<exists>fl. form_file form = Some fl \<and>
                   (file_type fl \<noteq> ''application/pdf'' \<or> 50 * 1024 * 1024 < file_size fl))))
       \<and> ((\<exists>ts e. response (POST env) = Response 400 (handleError ts e ''File Validation'')) \<longleftrightarrow>
            (\<exists>e. file_validation (form_file form) = Inl e))"
proof -
  have "POST env = (case after_form env u form \<lparr>events = [], reads = 0\<rparr> of
                      Inl rt \<Rightarrow> early rt | Inr c \<Rightarrow> analyse_and_save env c)"
    using assms by (simp add: POST_def ingest_def Let_def)
  then show ?thesis
    using after_form_validation [of env u form "\<lparr>events = [], reads = 0\<rparr>"] file_validation_Inl_iff [of "form_file form"]
    by simp
qed

theorem validation_rejects_all_but_pdf_witness:
  "\<exists>ts e. response (POST (sample_env\<lparr>formData := Resolved (sample_form\<lparr>form_file :=
       Some \<lparr>file_name = ''lease.pdf'', file_type = ''application/pdf'', file_size = 60000000\<rparr>\<rparr>)\<rparr>))
     = Response 400 (handleError ts e ''File Validation'')"
proof -
  let ?form = "sample_form\<lparr>form_file :=
       Some \<lparr>file_name = ''lease.pdf'', file_type = ''application/pdf'', file_size = 60000000\<rparr>\<rparr>"
  let ?env = "sample_env\<lparr>formData := Resolved ?form\<rparr>"
  have k: "gemini_api_key ?env" and u: "getUser ?env = Resolved (Inr (Some ''user-1''))"
    and f: "formData ?env = Resolved ?form"
    by (simp_all add: sample_env_def)
  have big: "form_file ?form = None \<or>
             (\<exists>fl. form_file ?form = Some fl \<and>
                   (file_type fl \<noteq> ''application/pdf'' \<or> 50 * 1024 * 1024 < file_size fl))"
    by simp
  from validation_rejects_all_but_pdf [OF k u f] big show ?thesis by blast
qed

text \<open>
  Claim C5 as stated fails: an upload declared as a Word document (DOCX), well within
  the size ceiling, is refused by the file checks, and the handler answers 400.
\<close>

theorem docx_upload_is_rejected:
  "file_size docx_file \<le> 50 * 1024 * 1024
   \<and> file_validation (Some docx_file) =
       Inl (JsError (Some (''Invalid file type: application/vnd.openxmlformats-officedocument.wordprocessingml.document''
                           @ ''. Only PDF files are allowed.'')))
   \<and> response (POST (sample_env\<lparr>formData := Resolved (sample_form\<lparr>form_file := Some docx_file\<rparr>)\<rparr>)) =
       Response 400
         (JObj [(''error'', JStr (''Invalid file type: application/vnd.openxmlformats-officedocument.wordprocessingml.document''
                                  @ ''. Only PDF files are allowed.'')),
                (''context'', JStr ''File Validation''),
                (''timestamp'', JStr ''2025-01-01T00:00:00.000Z'')])"
  by (simp add: docx_file_def sample_env_def sample_form_def POST_def ingest_def after_form_def
      file_validation_def early_def respond_error_def handleError_def error_text_def Let_def)

text \<open>
  Claim C10. Take an upload that reaches the analysis stage, whose text extraction
  threw an error with message \<open>m\<close>, where the failure sentence
  \<^verbatim>\<open>Text extraction failed: \<close> followed by \<open>m\<close> has at least 100 characters, and that
  requests modes of the registry only. Then the extracted text is that failure sentence;
  it is not the string \<^verbatim>\<open>Text extraction failed\<close> that the gate compares with, and the
  gate lets it pass; and one model call is made for every requested mode, whose
  document content is the failure sentence (its first 8000 characters, as for any
  extracted text).
\<close>

theorem extraction_failure_text_is_analysed:
  assumes "ingest env = Inr c"
    and "extract_text env = Rejected (JsError (Some m))"
    and "100 \<le> length (''Text extraction failed: '' @ m)"
    and "set (g_modes c) \<subseteq> set registry"
  shows "g_text c = ''Text extraction failed: '' @ m
       \<and> g_text c \<noteq> ''Text extraction failed''
       \<and> \<not> insufficient (g_text c)
       \<and> model_calls (POST env) =
           map (\<lambda>mode. prompt_text env mode @ [newline, newline] @ ''Lease Type: '' @ g_leaseType c @
                        [newline, newline] @ ''Document Content:'' @ [newline] @
                        take 8000 (''Text extraction failed: '' @ m))
               (g_modes c)"
proof -
  from assms(3) have "m \<noteq> []" by auto
  with assms(2) have "extractedText env = ''Text extraction failed: '' @ m"
    by (simp add: extractedText_def error_text_def)
  with ingest_InrD [OF assms(1)] have t: "g_text c = ''Text extraction failed: '' @ m" by auto
  with assms(3) have g: "\<not> insufficient (g_text c)" by (simp add: insufficient_iff)
  have ne: "g_text c \<noteq> ''Text extraction failed''" by (simp add: t)
  have "model_calls (POST env) = map (\<lambda>mode. contextualPrompt env mode (g_leaseType c) (g_text c)) (g_modes c)"
    by (simp add: POST_Inr [OF assms(1)] save_fields(1) [OF g] loop_calls [OF assms(4)])
  with t g ne show ?thesis by (simp add: contextualPrompt_def)
qed

theorem extraction_failure_text_is_analysed_witness:
  "model_calls (POST (sample_env\<lparr>extract_text := Rejected (JsError (Some (replicate 80 (CHR ''e''))))\<rparr>)) =
     map (\<lambda>mode. ''Prompt of '' @ mode @ [newline, newline] @ ''Lease Type: solar'' @
                  [newline, newline] @ ''Document Content:'' @ [newline] @
                  ''Text extraction failed: '' @ replicate 80 (CHR ''e''))
         [''standard'', ''legal'']"
proof -
  let ?env = "sample_env\<lparr>extract_text := Rejected (JsError (Some (replicate 80 (CHR ''e''))))\<rparr>"
  have "\<exists>c. ingest ?env = Inr c"
    by (simp add: sample_env_def sample_form_def ingest_def after_form_def store_file_def
        file_validation_def maxSize_def Let_def)
  then obtain c where c: "ingest ?env = Inr c" ..
  from ingest_InrD [OF c] obtain form where f: "formData ?env = Resolved form"
    and m: "g_modes c = requested_modes form" and l: "g_leaseType c = lease_type_of form" by blast
  from f have form: "form = sample_form" by (simp add: sample_env_def)
  have modes: "g_modes c = [''standard'', ''legal'']" by (simp add: m form sample_modes)
  have lease: "g_leaseType c = ''solar''" by (simp add: l form lease_type_of_def sample_form_def)
  have x: "extract_text ?env = Rejected (JsError (Some (replicate 80 (CHR ''e''))))" by simp
  have n: "100 \<le> length (''Text extraction failed: '' @ replicate 80 (CHR ''e''))" by simp
  have v: "set (g_modes c) \<subseteq> set registry" by (simp add: modes registry_def)
  from extraction_failure_text_is_analysed [OF c x n v] show ?thesis
    by (simp add: modes lease sample_env_def)
qed

section \<open>Properties of the chat route\<close>

lemma request_Inl:
  "chat_request env = Inl r \<Longrightarrow> status_code r \<noteq> 200 \<and> r \<noteq> failed_to_generate"
  by (auto simp: chat_request_def internal_error_def error_body_def failed_to_generate_def
      split: awaited.splits option.splits if_splits)

lemma session_Inl:
  "chat_session env req = Inl r \<Longrightarrow> status_code r \<noteq> 200 \<and> r \<noteq> failed_to_generate"
  by (auto simp: chat_session_def internal_error_def error_body_def failed_to_generate_def
      split: awaited.splits option.splits if_splits)

lemma context_Inl:
  "chat_context env req = Inl r \<Longrightarrow> status_code r \<noteq> 200 \<and> r \<noteq> failed_to_generate"
  by (auto simp: chat_context_def internal_error_def error_body_def failed_to_generate_def
      split: sum.splits awaited.splits option.splits if_splits)

lemma context_Inr:
  "chat_context env req = Inr ctx \<Longrightarrow> chat_fileId req \<noteq> [] \<Longrightarrow> fst ctx \<noteq> None"
  by (auto simp: chat_context_def split: if_splits awaited.splits option.splits)

text \<open>A failed model call makes each service method return its apology; so does a
  stored text that is not a string, without any model call.\<close>

lemma chatWithDocument_failure:
  "chatWithDocument (Threw e) (JStr s) = document_apology e"
  by (simp add: chatWithDocument_def document_excerpt_def)

lemma chatWithProject_failure:
  "chatWithProject None (Threw e) = project_apology e"
  by (simp add: chatWithProject_def)

lemma chatWithDocument_no_text:
  "chatWithDocument g JNull = document_apology (ErrorObject (property_read_message JNull ''substring''))"
  by (simp add: chatWithDocument_def document_excerpt_def)

lemma not_an_error_is_unknown:
  "document_apology (OtherThrown (JObj [(''message'', JStr m)])) =
     ''I apologize, but I encountered an error while processing your request. '' @
     ''Please try again or contact support if the issue persists. Error: Unknown error''"
  by (simp add: document_apology_def message_or_unknown_def)

text \<open>When a service method is called, the turn ends with the 200 response that carries
  what the method returned, stored as the assistant's message, or with the 500 response
  of a failed insert; never with the answer of the inner \<^verbatim>\<open>catch\<close>.\<close>

lemma turn_with_answer:
  assumes "chat_session env req = Inr sid" and "generate_response env req fileData projectFiles = Some answer"
  shows "chat_response (chat_turn env req fileData projectFiles) \<noteq> failed_to_generate"
    and "insert_user_message env = Resolved None \<Longrightarrow> insert_response env = Resolved None \<Longrightarrow>
         chat_turn env req fileData projectFiles =
           \<lparr>chat_response = Response 200
              (JObj [(''message'', JStr answer), (''sessionId'', JStr sid),
                     (''chatType'', JStr (case fileData of Some fd \<Rightarrow> ''document'' | None \<Rightarrow> ''project''))]),
            chat_stored = [(''user'', chat_message req), (''assistant'', answer)]\<rparr>"
  using assms
  by (auto simp: chat_turn_def internal_error_def error_body_def failed_to_generate_def
      split: awaited.splits option.splits)

lemma turn_early:
  "chat_session env req = Inl r \<Longrightarrow>
   chat_turn env req fileData projectFiles = \<lparr>chat_response = r, chat_stored = []\<rparr>"
  by (simp add: chat_turn_def)

lemma generate_defined:
  "fileData \<noteq> None \<or> (chat_projectId req \<noteq> [] \<and> chat_fileIds req \<noteq> None) \<Longrightarrow>
   generate_response env req fileData projectFiles =
     Some (case fileData of
             Some fd \<Rightarrow> chatWithDocument (chat_generateContent env) (js_get fd ''extracted_text'')
           | None \<Rightarrow> chatWithProject (project_assembly env) (chat_generateContent env))"
  by (auto simp: generate_response_def split: option.splits)

text \<open>In a document chat, and in a project chat whose request names the file ids, the
  inner \<^verbatim>\<open>catch\<close> of the route (lines 145-150) is never entered, whatever the model call
  ends with.\<close>

lemma inner_catch_unreachable:
  assumes "chat_request env = Inr req" and "chat_fileId req \<noteq> [] \<or> chat_fileIds req \<noteq> None"
  shows "chat_response (chat_POST env) \<noteq> failed_to_generate"
proof (cases "chat_context env req")
  case (Inl r)
  with assms(1) context_Inl [OF Inl] show ?thesis by (simp add: chat_POST_def)
next
  case (Inr ctx)
  have post: "chat_POST env = chat_turn env req (fst ctx) (snd ctx)"
    using assms(1) Inr by (simp add: chat_POST_def)
  have "chat_projectId req \<noteq> [] \<or> chat_fileId req \<noteq> []"
    using assms(1) by (auto simp: chat_request_def split: awaited.splits option.splits if_splits)
  with assms(2) context_Inr [OF Inr]
  have gen: "fst ctx \<noteq> None \<or> (chat_projectId req \<noteq> [] \<and> chat_fileIds req \<noteq> None)" by blast
  show ?thesis
  proof (cases "chat_session env req")
    case (Inl r)
    with session_Inl [OF Inl] show ?thesis by (simp add: post turn_early)
  next
    case (Inr sid)
    from turn_with_answer(1) [OF Inr generate_defined [OF gen]] show ?thesis by (simp add: post)
  qed
qed

text \<open>
  Claim C8. The program does not surface a failed model call as an error response. In
  a document chat where the user is signed in, the file row holds the extracted text,
  every database call succeeds and the model call throws \<^verbatim>\<open>quota exceeded\<close>, the caller
  receives a 200 response whose \<^verbatim>\<open>message\<close> is the apology sentence of the service
  method, shaped like the response of the same chat when the model answers; the
  sentence is stored as the assistant's message of the turn; and the response is not the
  retryable error response that the route has for this failure
  (\<^verbatim>\<open>Failed to generate AI response. Please try again.\<close>, status 500, lines 145-150).
\<close>

theorem model_failure_gets_success_response:
  "chat_generateContent sample_chat = Threw (ErrorObject ''quota exceeded'')
   \<and> chat_response (chat_POST sample_chat) =
       Response 200
         (JObj [(''message'', JStr (''I apologize, but I encountered an error while processing your request. '' @
                                   ''Please try again or contact support if the issue persists. Error: quota exceeded'')),
                (''sessionId'', JStr ''chat-1''),
                (''chatType'', JStr ''document'')])
   \<and> chat_stored (chat_POST sample_chat) =
       [(''user'', ''When does the lease end?''),
        (''assistant'', ''I apologize, but I encountered an error while processing your request. '' @
                        ''Please try again or contact support if the issue persists. Error: quota exceeded'')]
   \<and> chat_response (chat_POST sample_chat) \<noteq> failed_to_generate
   \<and> chat_response (chat_POST sample_chat_answered) =
       Response 200
         (JObj [(''message'', JStr ''The lease ends on 31 December 2045.''),
                (''sessionId'', JStr ''chat-1''),
                (''chatType'', JStr ''document'')])"
  by (simp add: sample_chat_answered_def sample_chat_def chat_POST_def chat_request_def chat_context_def
      chat_turn_def chat_session_def generate_response_def chatWithDocument_def document_excerpt_def
      document_apology_def message_or_unknown_def js_get_def failed_to_generate_def error_body_def)

section \<open>Properties of the obligations export\<close>

lemma fence_len_le: "fence_len pat s \<le> length s"
proof (cases "take (length pat) s = pat")
  case True
  then have "length (take (length pat) s) = length pat" by simp
  then have le: "length pat \<le> length s" by simp
  show ?thesis
  proof (cases "drop (length pat) s")
    case Nil
    with True le show ?thesis by (simp add: fence_len_def)
  next
    case (Cons c cs)
    then have "length (drop (length pat) s) > 0" by simp
    then have "length pat < length s" by simp
    with True Cons show ?thesis by (simp add: fence_len_def)
  qed
next
  case False
  then show ?thesis by (simp add: fence_len_def)
qed

lemma take_pat_append:
  assumes "b \<notin> set pat"
  shows "take (length pat) (p @ b # rest) = pat \<longleftrightarrow> take (length pat) p = pat"
proof (cases "length pat \<le> length p")
  case True
  then show ?thesis by simp
next
  case False
  then have lt: "length p < length pat" by simp
  have "take (length pat) p \<noteq> pat"
  proof
    assume "take (length pat) p = pat"
    then have "length (take (length pat) p) = length pat" by simp
    with lt show False by simp
  qed
  moreover have "take (length pat) (p @ b # rest) \<noteq> pat"
  proof
    assume eq: "take (length pat) (p @ b # rest) = pat"
    from lt obtain k where k: "length pat - length p = Suc k" by (cases "length pat - length p") auto
    from eq have "pat = p @ take (length pat - length p) (b # rest)" using lt by simp
    with k have "pat = p @ b # take k rest" by simp
    then have "b \<in> set pat" by (metis in_set_conv_decomp)
    with assms show False by simp
  qed
  ultimately show ?thesis by simp
qed

lemma fence_len_append:
  assumes "b \<notin> set pat" and "b \<noteq> newline"
  shows "fence_len pat (p @ b # rest) = fence_len pat p"
proof (cases "take (length pat) p = pat")
  case True
  then have "length (take (length pat) p) = length pat" by simp
  then have le: "length pat \<le> length p" by simp
  have m: "take (length pat) (p @ b # rest) = pat"
    using take_pat_append [OF assms(1), of p rest] True by blast
  show ?thesis
  proof (cases "drop (length pat) p")
    case Nil
    with le have "drop (length pat) (p @ b # rest) = b # rest" by simp
    with True m Nil assms(2) show ?thesis by (simp add: fence_len_def)
  next
    case (Cons c cs)
    with le have "drop (length pat) (p @ b # rest) = c # cs @ b # rest" by simp
    with True m Cons show ?thesis by (simp add: fence_len_def)
  qed
next
  case False
  then have "take (length pat) (p @ b # rest) \<noteq> pat"
    using take_pat_append [OF assms(1), of p rest] by blast
  with False show ?thesis by (simp only: fence_len_def if_False)
qed

lemma replace_fence_append:
  assumes "b \<notin> set pat" and "b \<noteq> newline"
  shows "replace_fence pat (p @ b # rest) = replace_fence pat p @ replace_fence pat (b # rest)"
  using assms
proof (induction pat p rule: replace_fence.induct)
  case (1 pat)
  show ?case by simp
next
  case (2 pat c cs)
  have len: "fence_len pat (c # cs @ b # rest) = fence_len pat (c # cs)"
    using fence_len_append [OF "2.prems", of "c # cs" rest] by simp
  show ?case
  proof (cases "fence_len pat (c # cs) = 0")
    case True
    with "2.IH"(1) [OF True "2.prems"] len show ?thesis by simp
  next
    case False
    have le: "fence_len pat (c # cs) \<le> length (c # cs)" by (rule fence_len_le)
    then have "drop (fence_len pat (c # cs)) (c # cs @ b # rest) =
                 drop (fence_len pat (c # cs)) (c # cs) @ b # rest"
      by (metis append_Cons drop_append diff_is_0_eq drop_0)
    with "2.IH"(2) [OF False "2.prems"] len False show ?thesis by simp
  qed
qed

lemma set_replace_fence: "set (replace_fence pat s) \<subseteq> set s"
proof (induction pat s rule: replace_fence.induct)
  case (1 pat)
  show ?case by simp
next
  case (2 pat c cs)
  show ?case
  proof (cases "fence_len pat (c # cs) = 0")
    case True
    with "2.IH"(1) [OF True] show ?thesis by auto
  next
    case False
    have "set (drop (fence_len pat (c # cs)) (c # cs)) \<subseteq> set (c # cs)" by (rule set_drop_subset)
    with "2.IH"(2) [OF False] False show ?thesis by auto
  qed
qed

lemma fence_len_ticks:
  assumes "fence_len (fence @ x) s \<noteq> 0"
  shows "\<exists>r. s = backtick # backtick # backtick # r"
proof -
  from assms have "take (length (fence @ x)) s = fence @ x"
    by (simp add: fence_len_def split: if_splits)
  then have "take 3 (take (length (fence @ x)) s) = take 3 (fence @ x)" by simp
  then have "take 3 s = fence" by (simp add: fence_def min_def)
  then show ?thesis
    by (cases s; cases "tl s"; cases "tl (tl s)") (auto simp: fence_def)
qed

lemma has_fence_Cons: "\<not> has_fence (a # s) \<Longrightarrow> \<not> has_fence s"
  by (cases s; cases "tl s") auto

lemma replace_fence_no_fence:
  assumes "c \<noteq> backtick" and "\<not> has_fence (l @ [c])"
  shows "replace_fence (fence @ x) (l @ c # post) = l @ c # replace_fence (fence @ x) post"
  using assms(2)
proof (induction l)
  case Nil
  have "fence_len (fence @ x) (c # post) = 0"
    using fence_len_ticks [of x "c # post"] assms(1) by auto
  then show ?case by simp
next
  case (Cons a l)
  have "fence_len (fence @ x) (a # l @ c # post) = 0"
  proof (rule ccontr)
    assume "fence_len (fence @ x) (a # l @ c # post) \<noteq> 0"
    from fence_len_ticks [OF this] obtain r where r: "a # l @ c # post = backtick # backtick # backtick # r"
      by blast
    then have a: "a = backtick" and l1: "l @ c # post = backtick # backtick # r" by simp_all
    from l1 assms(1) obtain l' where l': "l = backtick # l'" and l2: "l' @ c # post = backtick # r"
      by (cases l) auto
    from l2 assms(1) obtain l'' where l'': "l' = backtick # l''" by (cases l') auto
    from Cons.prems a l' l'' show False by simp
  qed
  moreover have "\<not> has_fence (l @ [c])" using Cons.prems has_fence_Cons [of a "l @ [c]"] by simp
  ultimately show ?case using Cons.IH by simp
qed


lemma has_fence_other_Cons: "a \<noteq> backtick \<Longrightarrow> has_fence (a # s) = has_fence s"
  by (cases s; cases "tl s") auto

lemma has_fence_snoc: "c \<noteq> backtick \<Longrightarrow> has_fence (s @ [c]) = has_fence s"
  by (induction s rule: has_fence.induct) auto

lemma bracket_facts:
  "CHR ''['' \<noteq> backtick" "CHR '']'' \<noteq> backtick" "CHR ''['' \<noteq> newline"
  "CHR ''['' \<notin> set (fence @ x) \<longleftrightarrow> CHR ''['' \<notin> set x"
  "\<not> js_whitespace (CHR ''['')" "\<not> js_whitespace (CHR '']'')"
  by (auto simp: backtick_def newline_def fence_def js_whitespace_def)

lemma replace_fence_around:
  assumes "CHR ''['' \<notin> set pre" and "\<not> has_fence mid" and "CHR ''['' \<notin> set x"
  shows "replace_fence (fence @ x) (pre @ CHR ''['' # mid @ CHR '']'' # post) =
         replace_fence (fence @ x) pre @ CHR ''['' # mid @ CHR '']'' # replace_fence (fence @ x) post"
proof -
  have nf: "\<not> has_fence ((CHR ''['' # mid) @ [CHR '']''])"
    using assms(2) by (simp add: has_fence_snoc has_fence_other_Cons bracket_facts del: has_fence.simps)
  have "replace_fence (fence @ x) (pre @ CHR ''['' # mid @ CHR '']'' # post) =
        replace_fence (fence @ x) pre @ replace_fence (fence @ x) (CHR ''['' # mid @ CHR '']'' # post)"
    using assms(3) by (intro replace_fence_append) (simp_all add: bracket_facts fence_def backtick_def)
  also have "replace_fence (fence @ x) (CHR ''['' # mid @ CHR '']'' # post) =
             CHR ''['' # mid @ CHR '']'' # replace_fence (fence @ x) post"
    using replace_fence_no_fence [OF bracket_facts(2) nf, of x post] by simp
  finally show ?thesis .
qed

lemma dropWhile_keep: "\<not> P b \<Longrightarrow> dropWhile P (p @ b # r) = dropWhile P p @ b # r"
  by (induction p) auto

lemma js_trim_around:
  "js_trim (p @ CHR ''['' # mid @ CHR '']'' # q) =
     dropWhile js_whitespace p @ CHR ''['' # mid @ CHR '']'' # rev (dropWhile js_whitespace (rev q))"
proof -
  have "dropWhile js_whitespace (p @ CHR ''['' # mid @ CHR '']'' # q) =
        dropWhile js_whitespace p @ CHR ''['' # mid @ CHR '']'' # q"
    by (rule dropWhile_keep) (rule bracket_facts)
  moreover have "dropWhile js_whitespace (rev q @ CHR '']'' # rev mid @ CHR ''['' # rev (dropWhile js_whitespace p)) =
        dropWhile js_whitespace (rev q) @ CHR '']'' # rev mid @ CHR ''['' # rev (dropWhile js_whitespace p)"
    by (rule dropWhile_keep) (rule bracket_facts)
  ultimately show ?thesis by (simp add: js_trim_def)
qed

lemma takeWhile_upto: "b \<notin> set p \<Longrightarrow> takeWhile (\<lambda>x. x \<noteq> b) (p @ b # r) = p"
  by (induction p) auto

lemma slice_around:
  assumes "CHR ''['' \<notin> set p" and "CHR '']'' \<notin> set q"
  shows "(let t = p @ CHR ''['' # mid @ CHR '']'' # q in
          case indexOf (CHR ''['') t of
            None \<Rightarrow> t
          | Some jsonStart \<Rightarrow>
             (case lastIndexOf (CHR '']'') t of
                None \<Rightarrow> t
              | Some jsonEnd \<Rightarrow>
                  if jsonEnd > jsonStart then take (jsonEnd + 1 - jsonStart) (drop jsonStart t) else t))
         = CHR ''['' # mid @ [CHR '']'']"
proof -
  let ?t = "p @ CHR ''['' # mid @ CHR '']'' # q"
  have i: "indexOf (CHR ''['') ?t = Some (length p)"
    using takeWhile_upto [OF assms(1), of "mid @ CHR '']'' # q"] by (simp add: indexOf_def)
  have "CHR '']'' \<notin> set (rev q)" using assms(2) by simp
  from takeWhile_upto [OF this, of "rev mid @ CHR ''['' # rev p"]
  have "takeWhile (\<lambda>x. x \<noteq> CHR '']'') (rev ?t) = rev q" by simp
  then have l: "lastIndexOf (CHR '']'') ?t = Some (length p + Suc (length mid))"
    by (simp add: lastIndexOf_def)
  show ?thesis by (simp add: i l Let_def del: append_assoc)
qed

text \<open>
  Claim C7, amended. Let the model's answer be an array literal \<^verbatim>\<open>[\<close> \<open>mid\<close> \<^verbatim>\<open>]\<close> with any
  text \<open>pre\<close> before it that holds no \<^verbatim>\<open>[\<close> and any text \<open>post\<close> behind it that holds no
  \<^verbatim>\<open>]\<close> (fences and commentary), where the literal itself holds no run of three
  backticks. Then the cleaning step yields exactly the literal, and whenever
  \<^verbatim>\<open>JSON.parse\<close> reads the literal as an array, the parse of the cleaned text succeeds with
  that array: the \<^verbatim>\<open>catch\<close> with its stand-in record is not entered. (These two routes
  have no repair pass.)
\<close>

theorem fenced_array_is_isolated:
  assumes "CHR ''['' \<notin> set pre" and "CHR '']'' \<notin> set post" and "\<not> has_fence mid"
  shows "clean_response (pre @ CHR ''['' # mid @ CHR '']'' # post) = CHR ''['' # mid @ [CHR '']'']
       \<and> (\<forall>parse v. parse (CHR ''['' # mid @ [CHR '']'']) = Some (JArr v) \<longrightarrow>
            parse_obligations parse (clean_response (pre @ CHR ''['' # mid @ CHR '']'' # post)) =
              (JArr v, ParsedOk))"
proof -
  let ?p1 = "replace_fence (fence @ ''json'') pre" and ?q1 = "replace_fence (fence @ ''json'') post"
  let ?p2 = "replace_fence fence ?p1" and ?q2 = "replace_fence fence ?q1"
  have one: "replace_fence (fence @ ''json'') (pre @ CHR ''['' # mid @ CHR '']'' # post) =
             ?p1 @ CHR ''['' # mid @ CHR '']'' # ?q1"
    using assms(1,3) by (intro replace_fence_around) simp_all
  have p1: "CHR ''['' \<notin> set ?p1" using assms(1) set_replace_fence [of "fence @ ''json''" pre] by auto
  have two: "replace_fence fence (?p1 @ CHR ''['' # mid @ CHR '']'' # ?q1) =
             ?p2 @ CHR ''['' # mid @ CHR '']'' # ?q2"
    using replace_fence_around [OF p1 assms(3), of "[]" ?q1] by simp
  have p2: "CHR ''['' \<notin> set (dropWhile js_whitespace ?p2)"
    using p1 set_replace_fence [of fence ?p1] set_dropWhileD [of "CHR ''[''" js_whitespace ?p2] by auto
  have "CHR '']'' \<notin> set ?q2"
    using assms(2) set_replace_fence [of "fence @ ''json''" post] set_replace_fence [of fence ?q1] by auto
  then have q2: "CHR '']'' \<notin> set (rev (dropWhile js_whitespace (rev ?q2)))"
    using set_dropWhileD [of "CHR '']''" js_whitespace "rev ?q2"] by auto
  have clean: "clean_response (pre @ CHR ''['' # mid @ CHR '']'' # post) = CHR ''['' # mid @ [CHR '']'']"
    unfolding clean_response_def one two js_trim_around
    by (rule slice_around [OF p2 q2])
  show ?thesis by (simp add: clean parse_obligations_def)
qed



lemmas clean_defs = clean_response_def fence_def fence_len_def backtick_def js_trim_def js_whitespace_def
  indexOf_def lastIndexOf_def newline_def

theorem fenced_array_is_isolated_witness:
  "clean_response (''Here are the obligations: '' @ fence @ ''json'' @ [newline] @
                   ''[1, 2]'' @ [newline] @ fence @ [newline] @ ''Let me know if you need more.'')
   = ''[1, 2]''"
proof -
  have pre: "CHR ''['' \<notin> set (''Here are the obligations: '' @ fence @ ''json'' @ [newline])"
    by (simp add: fence_def backtick_def newline_def)
  have post: "CHR '']'' \<notin> set ([newline] @ fence @ [newline] @ ''Let me know if you need more.'')"
    by (simp add: fence_def backtick_def newline_def)
  have mid: "\<not> has_fence ''1, 2''" by (simp add: backtick_def)
  from fenced_array_is_isolated [OF pre post mid] show ?thesis by simp
qed

text \<open>
  Claim C7 as stated fails: the answer \<^verbatim>\<open>["```"]\<close>, a JSON array literal with no wrapper
  and no commentary, is cleaned to \<^verbatim>\<open>[""]\<close>, which is not the literal: the fence
  replacement is global and also removes backticks inside the array.
\<close>

theorem fence_inside_array_is_removed:
  "clean_response (''['' @ [double_quote] @ fence @ [double_quote] @ '']'')
     = ''['' @ [double_quote, double_quote] @ '']''
   \<and> clean_response (''['' @ [double_quote] @ fence @ [double_quote] @ '']'')
     \<noteq> ''['' @ [double_quote] @ fence @ [double_quote] @ '']''"
  by (simp add: clean_defs double_quote_def)













end
